theory Spec2Isabelle
  imports Complex_Main
begin

section \<open>Python strings\<close>

text \<open>
  A Python \<open>str\<close> is modelled as a \<^typ>\<open>string\<close>, a list of characters with code
  points below 256 (ASCII and Latin-1). The string methods and regular-expression
  character classes the program uses are modelled as Python defines them on that range.
  Python floats are modelled as exact reals.
\<close>

definition ord :: "char \<Rightarrow> nat" where
  "ord c = of_char c"

text \<open>\<open>str.isspace\<close>, also the class \<open>\s\<close> of a \<open>str\<close> pattern.\<close>

definition is_space :: "char \<Rightarrow> bool" where
  "is_space c = (let n = ord c in
     (9 \<le> n \<and> n \<le> 13) \<or> (28 \<le> n \<and> n \<le> 32) \<or> n = 133 \<or> n = 160)"

definition is_upper :: "char \<Rightarrow> bool" where
  "is_upper c = (let n = ord c in 65 \<le> n \<and> n \<le> 90)"

definition is_lower :: "char \<Rightarrow> bool" where
  "is_lower c = (let n = ord c in 97 \<le> n \<and> n \<le> 122)"

definition is_digit :: "char \<Rightarrow> bool" where
  "is_digit c = (let n = ord c in 48 \<le> n \<and> n \<le> 57)"

definition is_letter :: "char \<Rightarrow> bool" where
  "is_letter c = (is_upper c \<or> is_lower c)"

text \<open>The class \<open>\w\<close> of a \<open>str\<close> pattern: alphanumeric code points and the underscore.\<close>

definition is_word :: "char \<Rightarrow> bool" where
  "is_word c = (let n = ord c in
     is_letter c \<or> is_digit c \<or> c = CHR ''_'' \<or>
     n = 170 \<or> n = 178 \<or> n = 179 \<or> n = 181 \<or> n = 185 \<or> n = 186 \<or>
     (188 \<le> n \<and> n \<le> 190) \<or> (192 \<le> n \<and> n \<le> 214) \<or>
     (216 \<le> n \<and> n \<le> 246) \<or> 248 \<le> n)"

definition lower_char :: "char \<Rightarrow> char" where
  "lower_char c = (let n = ord c in
     if (65 \<le> n \<and> n \<le> 90) \<or> (192 \<le> n \<and> n \<le> 222 \<and> n \<noteq> 215)
     then char_of (n + 32) else c)"

text \<open>\<open>s.lower()\<close>\<close>

definition lower :: "string \<Rightarrow> string" where
  "lower s = map lower_char s"

text \<open>\<open>s.strip()\<close>\<close>

definition strip :: "string \<Rightarrow> string" where
  "strip s = rev (dropWhile is_space (rev (dropWhile is_space s)))"

text \<open>\<open>s.split()\<close>: the maximal runs of characters that are not white space.\<close>

fun split_aux :: "string \<Rightarrow> string \<Rightarrow> string list" where
  "split_aux cur [] = (if cur = [] then [] else [cur])"
| "split_aux cur (c # cs) =
     (if is_space c then (if cur = [] then split_aux [] cs else cur # split_aux [] cs)
      else split_aux (cur @ [c]) cs)"

definition split :: "string \<Rightarrow> string list" where
  "split s = split_aux [] s"

text \<open>\<open>s.startswith(p)\<close>\<close>

fun startswith :: "string \<Rightarrow> string \<Rightarrow> bool" where
  "startswith s [] = True"
| "startswith [] (p # ps) = False"
| "startswith (c # cs) (p # ps) = (c = p \<and> startswith cs ps)"

text \<open>\<open>sub in s\<close>: \<open>sub\<close> occurs in \<open>s\<close> as a contiguous substring.\<close>

fun contains :: "string \<Rightarrow> string \<Rightarrow> bool" where
  "contains sub [] = (sub = [])"
| "contains sub (c # cs) = (startswith (c # cs) sub \<or> contains sub cs)"

text \<open>\<open>any(t in s for t in ts)\<close> and \<open>sum(1 for t in ts if t in s)\<close>\<close>

definition any_in :: "string list \<Rightarrow> string \<Rightarrow> bool" where
  "any_in ts s = list_ex (\<lambda>t. contains t s) ts"

definition count_in :: "string list \<Rightarrow> string \<Rightarrow> nat" where
  "count_in ts s = length (filter (\<lambda>t. contains t s) ts)"

section \<open>The email pattern (app.py)\<close>

text \<open>
  \<open>EMAIL_PATTERN = \b[A-Za-z0-9._%+-]+@[A-Za-z0-9.-]+\.[A-Z|a-z]{2,}\b\<close>.
  The three character classes, as written in the pattern (the last one holds the bar).
\<close>

definition is_local :: "char \<Rightarrow> bool" where
  "is_local c = (is_letter c \<or> is_digit c \<or> c \<in> set ''._%+-'')"

definition is_domain :: "char \<Rightarrow> bool" where
  "is_domain c = (is_letter c \<or> is_digit c \<or> c \<in> set ''.-'')"

definition is_tld :: "char \<Rightarrow> bool" where
  "is_tld c = (is_letter c \<or> c = CHR ''|'')"

text \<open>\<open>\b\<close> between two neighbouring positions; \<open>None\<close> is an end of the string.\<close>

definition opt_word :: "char option \<Rightarrow> bool" where
  "opt_word p = (case p of None \<Rightarrow> False | Some c \<Rightarrow> is_word c)"

definition word_boundary :: "char option \<Rightarrow> char option \<Rightarrow> bool" where
  "word_boundary p n = (opt_word p \<noteq> opt_word n)"

definition nth_opt :: "string \<Rightarrow> nat \<Rightarrow> char option" where
  "nth_opt s i = (if i < length s then Some (s ! i) else None)"

text \<open>
  The final label \<open>[A-Z|a-z]{2,}\b\<close> on \<open>r\<close>, the text after the dot. The greedy
  quantifier tries the longest run first and gives characters back one by one;
  \<open>try_tld l bound r\<close> is the length of the label the engine settles for, trying the
  lengths from \<open>l\<close> downwards (or \<open>None\<close>). With \<open>bound\<close> false the closing
  \<open>\b\<close> is left out (the contact patterns of the scrape route).
\<close>

fun try_tld :: "nat \<Rightarrow> bool \<Rightarrow> string \<Rightarrow> nat option" where
  "try_tld 0 bound r = None"
| "try_tld (Suc l) bound r =
     (if Suc l < 2 then None
      else if \<not> bound \<or> word_boundary (nth_opt r l) (nth_opt r (Suc l)) then Some (Suc l)
      else try_tld l bound r)"

definition match_tld :: "bool \<Rightarrow> string \<Rightarrow> nat option" where
  "match_tld bound r = try_tld (length (takeWhile is_tld r)) bound r"

text \<open>
  \<open>[A-Za-z0-9.-]+\.[A-Z|a-z]{2,}\b\<close> on \<open>d\<close>, the text after the at sign: the
  domain run is tried from its longest length \<open>k\<close> downwards, and the first length
  that is followed by a dot and a final label wins. The result is the length of the
  whole match within \<open>d\<close>.
\<close>

fun try_domain :: "nat \<Rightarrow> bool \<Rightarrow> string \<Rightarrow> nat option" where
  "try_domain 0 bound d = None"
| "try_domain (Suc k) bound d =
     (case (if nth_opt d (Suc k) = Some CHR ''.'' then match_tld bound (drop (Suc (Suc k)) d) else None) of
        Some l \<Rightarrow> Some (Suc k + 1 + l)
      | None \<Rightarrow> try_domain k bound d)"

definition match_domain :: "bool \<Rightarrow> string \<Rightarrow> nat option" where
  "match_domain bound d = try_domain (length (takeWhile is_domain d)) bound d"

text \<open>
  \<open>[A-Za-z0-9._%+-]+@\<close> followed by the domain part, at the start of \<open>s\<close>. The at
  sign is not in the class of the local part, so the only length of the local run that
  can be followed by the at sign is the longest one. The result is the length of the
  match.
\<close>

definition match_address :: "bool \<Rightarrow> string \<Rightarrow> nat option" where
  "match_address bound s =
     (let n = length (takeWhile is_local s) in
      if 0 < n \<and> nth_opt s n = Some CHR ''@''
      then (case match_domain bound (drop (Suc n) s) of
              Some e \<Rightarrow> Some (n + 1 + e)
            | None \<Rightarrow> None)
      else None)"

text \<open>The whole pattern at the start of \<open>s\<close>, with \<open>prev\<close> the character before it.\<close>

definition match_email :: "char option \<Rightarrow> string \<Rightarrow> nat option" where
  "match_email prev s =
     (if word_boundary prev (nth_opt s 0) then match_address True s else None)"

text \<open>
  \<open>EMAIL_PATTERN.findall(text)\<close>: the leftmost match, then the leftmost match in what
  follows it, and so on. A match is never empty, so \<open>drop (len - 1) cs\<close> is the text
  after a match of length \<open>len\<close> in \<open>c # cs\<close>.
\<close>

function findall_from :: "char option \<Rightarrow> string \<Rightarrow> string list" where
  "findall_from prev [] = []"
| "findall_from prev (c # cs) =
     (case match_email prev (c # cs) of
        Some len \<Rightarrow> take len (c # cs) # findall_from (Some ((c # cs) ! (len - 1))) (drop (len - 1) cs)
      | None \<Rightarrow> findall_from (Some c) cs)"
  by pat_completeness auto
termination
  by (relation "measure (\<lambda>(p, s). length s)") auto

definition findall :: "string \<Rightarrow> string list" where
  "findall text = findall_from None text"

section \<open>Generic addresses (app.py)\<close>

definition GENERIC_EMAIL_PATTERNS :: "string list" where
  "GENERIC_EMAIL_PATTERNS =
     [''noreply'', ''no-reply'', ''donotreply'', ''support@'', ''info@'', ''contact@'',
      ''admin@'', ''webmaster@'', ''privacy@'', ''hello@'', ''mailer-'', ''postmaster@'',
      ''sales@'', ''marketing@'', ''help@'', ''customerservice@'', ''service@'',
      ''broofa'', ''example'', ''test@'', ''sample@'']"

definition is_generic_email :: "string \<Rightarrow> bool" where
  "is_generic_email email = any_in GENERIC_EMAIL_PATTERNS (lower email)"


section \<open>Company names (app.py)\<close>

text \<open>
  The substitution \<open>re.sub(r'\s+(Inc|LLC|Ltd|Corp|Corporation|Company|Co)\.?$', '', s,
  flags=re.IGNORECASE)\<close>, which both \<open>extract_company\<close> and
  \<open>infer_email_from_name_company\<close> apply.
\<close>

definition LEGAL_SUFFIXES :: "string list" where
  "LEGAL_SUFFIXES = [''inc'', ''llc'', ''ltd'', ''corp'', ''corporation'', ''company'', ''co'']"

text \<open>\<open>$\<close>: the end of the string, or just before a newline that ends the string.\<close>

definition at_end :: "string \<Rightarrow> bool" where
  "at_end r = (r = [] \<or> r = [CHR 0x0A])"

text \<open>
  One alternative, then \<open>\.?$\<close>, at the start of \<open>r\<close>, case ignored. The result is
  what is left of \<open>r\<close> after the match.
\<close>

definition suffix_alt :: "string \<Rightarrow> string \<Rightarrow> string option" where
  "suffix_alt r alt =
     (if lower (take (length alt) r) = alt
      then (let r' = drop (length alt) r in
            if r' \<noteq> [] \<and> hd r' = CHR ''.'' \<and> at_end (tl r') then Some (tl r')
            else if at_end r' then Some r'
            else None)
      else None)"

fun first_some :: "('a \<Rightarrow> 'b option) \<Rightarrow> 'a list \<Rightarrow> 'b option" where
  "first_some f [] = None"
| "first_some f (x # xs) = (case f x of Some y \<Rightarrow> Some y | None \<Rightarrow> first_some f xs)"

text \<open>
  The pattern at the start of \<open>s\<close>: the white space (all of it: an alternative starts
  with a letter), then the first alternative that leads to a match.
\<close>

definition match_suffix :: "string \<Rightarrow> string option" where
  "match_suffix s =
     (if takeWhile is_space s = [] then None
      else first_some (suffix_alt (dropWhile is_space s)) LEGAL_SUFFIXES)"

text \<open>
  The substitution removes the leftmost match. What is left after it is empty or a
  single newline, where the pattern cannot match again.
\<close>

fun sub_suffix :: "string \<Rightarrow> string" where
  "sub_suffix [] = []"
| "sub_suffix (c # cs) =
     (case match_suffix (c # cs) of Some r \<Rightarrow> r | None \<Rightarrow> c # sub_suffix cs)"

text \<open>
  \<open>COMPANY_PATTERNS\<close>: each pattern is a literal (\<open>at\<close>, \<open>@\<close>, \<open>from\<close>), white space
  (\<open>\s+\<close>, or \<open>\s*\<close> after the at sign), the group
  \<open>([A-Z][a-zA-Z0-9\s&,.-]+?)\<close> and the terminator \<open>(?:\s|,|\.|$)\<close>, searched with
  \<open>re.IGNORECASE\<close>. A pattern is given by its literal and by whether white space is
  required.
\<close>

definition COMPANY_PATTERNS :: "(string \<times> bool) list" where
  "COMPANY_PATTERNS = [(''at'', True), (''@'', False), (''from'', True)]"

definition is_company_char :: "char \<Rightarrow> bool" where
  "is_company_char c = (is_letter c \<or> is_digit c \<or> is_space c \<or> c \<in> set ''&,.-'')"

definition terminator :: "string \<Rightarrow> bool" where
  "terminator r = (case r of [] \<Rightarrow> True | c # _ \<Rightarrow> is_space c \<or> c = CHR '','' \<or> c = CHR ''.'')"

text \<open>
  The lazy \<open>[a-zA-Z0-9\s&,.-]+?\<close> followed by the terminator: the shortest run of at
  least one character of the class after which the terminator matches.
\<close>

fun lazy_run :: "string \<Rightarrow> string option" where
  "lazy_run [] = None"
| "lazy_run (c # cs) =
     (if is_company_char c
      then (if terminator cs then Some [c] else map_option (Cons c) (lazy_run cs))
      else None)"

text \<open>The group at the start of \<open>s\<close>: a letter, then the lazy run.\<close>

definition company_group :: "string \<Rightarrow> string option" where
  "company_group s =
     (case s of [] \<Rightarrow> None
      | c # cs \<Rightarrow> if is_letter c then map_option (Cons c) (lazy_run cs) else None)"

text \<open>
  One pattern at the start of \<open>s\<close>. The white space is taken whole: the group starts
  with a letter. The result is the text of the group.
\<close>

definition match_company :: "string \<times> bool \<Rightarrow> string \<Rightarrow> string option" where
  "match_company pat s =
     (if lower (take (length (fst pat)) s) = fst pat
      then (let r = drop (length (fst pat)) s in
            if snd pat \<and> takeWhile is_space r = [] then None
            else company_group (dropWhile is_space r))
      else None)"

text \<open>\<open>re.search\<close>: the match at the leftmost position that has one.\<close>

fun search_company :: "string \<times> bool \<Rightarrow> string \<Rightarrow> string option" where
  "search_company pat [] = match_company pat []"
| "search_company pat (c # cs) =
     (case match_company pat (c # cs) of Some g \<Rightarrow> Some g | None \<Rightarrow> search_company pat cs)"

definition extract_company :: "string \<Rightarrow> string" where
  "extract_company text =
     (case first_some (\<lambda>pat. search_company pat text) COMPANY_PATTERNS of
        Some g \<Rightarrow> sub_suffix (strip g)
      | None \<Rightarrow> [])"


section \<open>Choosing the email of a profile (app.py)\<close>

text \<open>\<open>re.sub(r'[^a-z0-9.-]', '', s)\<close>\<close>

definition is_domain_char :: "char \<Rightarrow> bool" where
  "is_domain_char c = (is_lower c \<or> is_digit c \<or> c \<in> set ''.-'')"

definition infer_patterns :: "string \<Rightarrow> string \<Rightarrow> string \<Rightarrow> string list" where
  "infer_patterns first_name last_name company_clean =
     (if last_name \<noteq> [] then
        [first_name @ ''.'' @ last_name @ ''@'' @ company_clean,
         first_name @ last_name @ ''@'' @ company_clean,
         first_name @ ''_'' @ last_name @ ''@'' @ company_clean,
         take 1 first_name @ last_name @ ''@'' @ company_clean,
         first_name @ take 1 last_name @ ''@'' @ company_clean]
      else
        [first_name @ ''@'' @ company_clean])"

definition infer_email_from_name_company :: "string \<Rightarrow> string \<Rightarrow> string" where
  "infer_email_from_name_company name company =
     (if name = [] \<or> company = [] then []
      else
        (let company_clean = filter is_domain_char (sub_suffix (lower company));
             name_parts = split (lower name)
         in if name_parts = [] then []
            else
              (let first_name = hd name_parts;
                   last_name = (if 1 < length name_parts then last name_parts else []);
                   patterns = infer_patterns first_name last_name company_clean
               in if patterns \<noteq> [] then hd patterns else [])))"

definition name_parts_of :: "string \<Rightarrow> string list" where
  "name_parts_of name = map lower (filter (\<lambda>p. 2 < length p) (split name))"

definition company_domain_of :: "string \<Rightarrow> string" where
  "company_domain_of company =
     filter is_domain_char
       (filter (\<lambda>c. c \<noteq> CHR '','') (filter (\<lambda>c. c \<noteq> CHR ''&'') (filter (\<lambda>c. c \<noteq> CHR '' '')
          (lower company))))"

definition is_profile_specific_email :: "string \<Rightarrow> string \<Rightarrow> string \<Rightarrow> bool" where
  "is_profile_specific_email email name profile_text =
     (if name = [] \<or> email = [] then False
      else if any_in (name_parts_of name) (lower email) then True
      else if profile_text \<noteq> [] \<and> extract_company profile_text \<noteq> [] \<and>
              contains (company_domain_of (extract_company profile_text)) (lower email) then True
      else False)"

text \<open>
  \<open>scrape_profile_for_email(url, use_advanced=False)\<close>, as \<open>extract_email\<close> calls it.
  The HTTP request is the parameter \<open>fetch\<close>: the text of the page when the request
  answers with status 200, \<open>None\<close> when it answers otherwise or raises.
\<close>

definition SCRAPE_SKIP :: "string list" where
  "SCRAPE_SKIP = [''noreply'', ''no-reply'', ''donotreply'', ''support@'', ''info@'',
                  ''contact@'', ''admin@'', ''webmaster@'', ''privacy@'']"

definition scrape_profile_for_email :: "(string \<Rightarrow> string option) \<Rightarrow> string \<Rightarrow> string" where
  "scrape_profile_for_email fetch url =
     (case fetch url of
        None \<Rightarrow> []
      | Some content \<Rightarrow>
          (let emails = findall content in
           if emails \<noteq> [] then
             (let filtered = filter (\<lambda>e. \<not> any_in SCRAPE_SKIP (lower e)) emails in
              if filtered \<noteq> [] then hd filtered else hd emails)
           else []))"

text \<open>
  The loops of strategies 1 and 2 of \<open>extract_email\<close>: \<open>Inl\<close> is the early return of
  a profile-specific address, \<open>Inr\<close> the list \<open>all_found_emails\<close> after the loop.
\<close>

fun scan_emails :: "string \<Rightarrow> string \<Rightarrow> nat \<Rightarrow> string list \<Rightarrow> (string \<times> nat) list \<Rightarrow> string + (string \<times> nat) list" where
  "scan_emails name text tier [] found = Inr found"
| "scan_emails name text tier (email # emails) found =
     (if \<not> is_generic_email email then
        (if is_profile_specific_email email name text then Inl email
         else scan_emails name text tier emails (found @ [(email, tier)]))
      else scan_emails name text tier emails found)"

definition PROFILE_DOMAINS :: "string list" where
  "PROFILE_DOMAINS = [''linkedin.com/in'', ''github.com'', ''twitter.com'', ''about.me'']"

text \<open>Strategy 3: the address scraped from the profile page.\<close>

definition scrape_stage :: "(string \<Rightarrow> string option) \<Rightarrow> string \<Rightarrow> string \<Rightarrow> string \<Rightarrow> (string \<times> nat) list \<Rightarrow> string + (string \<times> nat) list" where
  "scrape_stage fetch text name profile_url found =
     (if profile_url \<noteq> [] \<and> any_in PROFILE_DOMAINS (lower profile_url) then
        (let scraped_email = scrape_profile_for_email fetch profile_url in
         if scraped_email \<noteq> [] \<and> \<not> is_generic_email scraped_email then
           (if is_profile_specific_email scraped_email name text then Inl scraped_email
            else Inr (found @ [(scraped_email, 4)]))
         else Inr found)
      else Inr found)"

text \<open>Strategies 4 and 5: an address inferred from the name and a company.\<close>

definition add_inferred :: "string \<Rightarrow> string \<Rightarrow> (string \<times> nat) list \<Rightarrow> (string \<times> nat) list" where
  "add_inferred name company found =
     (let inferred = infer_email_from_name_company name company in
      if inferred \<noteq> [] \<and> \<not> is_generic_email inferred then found @ [(inferred, 1)] else found)"

definition infer_stage :: "string \<Rightarrow> string \<Rightarrow> string \<Rightarrow> (string \<times> nat) list \<Rightarrow> (string \<times> nat) list" where
  "infer_stage text name company found =
     (let found4 = (if found = [] \<and> name \<noteq> [] \<and> company \<noteq> []
                    then add_inferred name company found else found)
      in if found4 = [] \<and> name \<noteq> [] \<and> text \<noteq> [] then
           (let company_from_text = extract_company text in
            if company_from_text \<noteq> [] then add_inferred name company_from_text found4
            else found4)
         else found4)"

text \<open>
  \<open>all_found_emails.sort(key=lambda x: x[1], reverse=True)\<close> is a stable sort by
  descending confidence; the first element is returned.
\<close>

definition best_match :: "(string \<times> nat) list \<Rightarrow> string" where
  "best_match found =
     (if found \<noteq> [] then fst (hd (sort_key (\<lambda>x. - int (snd x)) found)) else [])"

definition extract_email :: "(string \<Rightarrow> string option) \<Rightarrow> string \<Rightarrow> string \<Rightarrow> string \<Rightarrow> string \<Rightarrow> string \<Rightarrow> string" where
  "extract_email fetch text url name company profile_url =
     (case scan_emails name text 3 (findall text) [] of
        Inl email \<Rightarrow> email
      | Inr found1 \<Rightarrow>
          (case (if url \<noteq> [] then scan_emails name text 2 (findall url) found1 else Inr found1) of
             Inl email \<Rightarrow> email
           | Inr found2 \<Rightarrow>
               (case scrape_stage fetch text name profile_url found2 of
                  Inl email \<Rightarrow> email
                | Inr found3 \<Rightarrow> best_match (infer_stage text name company found3))))"

section \<open>Keyword relevance (keyword_validator.py)\<close>

definition IRRELEVANT_TERMS :: "string list" where
  "IRRELEVANT_TERMS =
     [''shop'', ''store'', ''buy'', ''sell'', ''purchase'', ''price'', ''deal'', ''discount'',
      ''product'', ''products'', ''equipment'', ''device'', ''scanner'', ''reader'',
      ''handbag'', ''wallet'', ''blocking'', ''protection'', ''card holder'',
      ''amazon'', ''ebay'', ''aliexpress'', ''wholesale'', ''retail'',
      ''shipping'', ''delivery'', ''order'', ''cart'', ''checkout'']"

definition PROFESSIONAL_TERMS :: "string list" where
  "PROFESSIONAL_TERMS =
     [''engineer'', ''developer'', ''architect'', ''specialist'', ''consultant'',
      ''manager'', ''director'', ''lead'', ''senior'', ''principal'', ''staff'',
      ''researcher'', ''analyst'', ''scientist'', ''expert'', ''professional'',
      ''experience'', ''years'', ''skills'', ''certification'', ''degree'',
      ''university'', ''college'', ''education'', ''project'', ''team'']"

text \<open>The object: its two attributes.\<close>

record validator =
  keywords_attr :: "string list"
  keyword_terms :: "string list"

text \<open>\<open>re.split(r'[\s,.-]+', s)\<close>: the pieces between the maximal runs of separators.\<close>

definition is_sep :: "char \<Rightarrow> bool" where
  "is_sep c = (is_space c \<or> c \<in> set '',.-'')"

fun re_split_aux :: "bool \<Rightarrow> string \<Rightarrow> string \<Rightarrow> string list" where
  "re_split_aux in_sep cur [] = [cur]"
| "re_split_aux in_sep cur (c # cs) =
     (if is_sep c then (if in_sep then re_split_aux True cur cs else cur # re_split_aux True [] cs)
      else re_split_aux False (cur @ [c]) cs)"

definition re_split :: "string \<Rightarrow> string list" where
  "re_split s = re_split_aux False [] s"

definition STOP_WORDS :: "string list" where
  "STOP_WORDS = [''the'', ''and'', ''or'', ''for'', ''with'', ''from'']"

text \<open>
  \<open>_extract_keyword_terms\<close>. The source ends with \<open>list(set(terms))\<close>, whose order is
  not specified; the terms are only counted and searched for, so any order without
  duplicates gives the same scores.
\<close>

definition extract_keyword_terms :: "string list \<Rightarrow> string list" where
  "extract_keyword_terms kws =
     remdups (concat (map (\<lambda>keyword.
        filter (\<lambda>p. 2 < length p \<and> p \<notin> set STOP_WORDS) (re_split (lower keyword))) kws))"

text \<open>\<open>KeywordRelevanceValidator(...)\<close>\<close>

definition KeywordRelevanceValidator :: "string list \<Rightarrow> validator" where
  "KeywordRelevanceValidator kws =
     (let ks = map (\<lambda>k. strip (lower k)) (filter (\<lambda>k. strip k \<noteq> []) kws)
      in \<lparr>keywords_attr = ks, keyword_terms = extract_keyword_terms ks\<rparr>)"

text \<open>The decimal digits of a number, as an f-string prints it.\<close>

function show_nat :: "nat \<Rightarrow> string" where
  "show_nat n = (if n < 10 then [char_of (48 + n)] else show_nat (n div 10) @ [char_of (48 + n mod 10)])"
  by pat_completeness auto
termination
  by (relation "measure id") auto

definition join :: "string \<Rightarrow> string list \<Rightarrow> string" where
  "join sep xs = (case xs of [] \<Rightarrow> [] | y # ys \<Rightarrow> y @ concat (map (\<lambda>z. sep @ z) ys))"

definition combined_text :: "string \<Rightarrow> string \<Rightarrow> string \<Rightarrow> string \<Rightarrow> string" where
  "combined_text title job_title company profile_text =
     lower (title @ '' '' @ job_title @ '' '' @ company @ '' '' @ profile_text)"

definition product_indicators :: "string list" where
  "product_indicators = [''shop'', ''buy'', ''sell'', ''price'', ''add to cart'', ''checkout'']"

definition company_page_indicators :: "string list" where
  "company_page_indicators = [''about us'', ''our company'', ''our team'', ''contact us'', ''careers'']"

text \<open>The weighted sum computed once no hard reject applies.\<close>

definition base_score :: "validator \<Rightarrow> nat \<Rightarrow> nat \<Rightarrow> string \<Rightarrow> string \<Rightarrow> real" where
  "base_score v keyword_matches professional_count job_title company =
     (let s0 = 0;
          s1 = (if 0 < keyword_matches
                then s0 + min (real keyword_matches / real (length (keyword_terms v))) 1 * 0.4
                else s0);
          s2 = (if 0 < professional_count
                then s1 + min (real professional_count / 5) 1 * 0.3
                else s1);
          s3 = (if job_title \<noteq> [] \<and> any_in (keyword_terms v) (lower job_title) then s2 + 0.2 else s2);
          s4 = (if company \<noteq> [] \<and> any_in (keyword_terms v) (lower company) then s3 + 0.1 else s3)
      in if keyword_matches = 0 then s4 * 0.3 else s4)"

definition build_reason :: "validator \<Rightarrow> nat \<Rightarrow> nat \<Rightarrow> string \<Rightarrow> string" where
  "build_reason v keyword_matches professional_count job_title =
     (let reasons =
            (if 0 < keyword_matches
             then [''Found '' @ show_nat keyword_matches @ '' keyword match(es)''] else []) @
            (if 0 < professional_count
             then [''Found '' @ show_nat professional_count @ '' professional indicator(s)''] else []) @
            (if job_title \<noteq> [] \<and> any_in (keyword_terms v) (lower job_title)
             then [''Job title matches keywords''] else []);
          reasons' = (if reasons = [] then [''No clear keyword relevance''] else reasons)
      in if reasons' \<noteq> [] then join ''; '' reasons' else ''Low relevance'')"

definition calculate_relevance_score :: "validator \<Rightarrow> string \<Rightarrow> string \<Rightarrow> string \<Rightarrow> string \<Rightarrow> real \<times> string" where
  "calculate_relevance_score v profile_text title job_title company =
     (if profile_text = [] then (0, ''No profile text available'')
      else
        (let combined = combined_text title job_title company profile_text;
             irrelevant_count = count_in IRRELEVANT_TERMS combined
         in if 2 \<le> irrelevant_count
            then (0, ''Profile appears to be selling products (found '' @ show_nat irrelevant_count @
                     '' irrelevant terms)'')
            else
              (let keyword_matches = count_in (keyword_terms v) combined;
                   professional_count = count_in PROFESSIONAL_TERMS combined
               in if any_in product_indicators combined
                  then (0, ''Profile appears to be a product listing, not a professional'')
                  else if 2 \<le> count_in company_page_indicators combined
                  then (0, ''Profile appears to be a company page, not an individual'')
                  else (min (base_score v keyword_matches professional_count job_title company) 1,
                        build_reason v keyword_matches professional_count job_title))))"

definition is_relevant :: "validator \<Rightarrow> string \<Rightarrow> string \<Rightarrow> string \<Rightarrow> string \<Rightarrow> real \<Rightarrow> bool \<times> real \<times> string" where
  "is_relevant v profile_text title job_title company min_score =
     (let (score, reason) = calculate_relevance_score v profile_text title job_title company
      in (min_score \<le> score, score, reason))"

text \<open>The dictionary \<open>validate_profile\<close> returns; \<open>checks\<close> keeps the order of its keys.\<close>

record validation =
  is_valid :: bool
  score :: real
  reason :: string
  confidence :: real
  checks :: "(string \<times> bool) list"

definition profile_checks :: "validator \<Rightarrow> string \<Rightarrow> string \<Rightarrow> (string \<times> bool) list" where
  "profile_checks v name profile_text =
     [(''has_name'', name \<noteq> [] \<and> name \<noteq> ''Unknown'' \<and> 2 < length name),
      (''has_keyword_match'', any_in (keyword_terms v) (lower profile_text)),
      (''is_professional'', any_in PROFESSIONAL_TERMS (lower profile_text)),
      (''not_product'', \<not> any_in (take 5 IRRELEVANT_TERMS) (lower profile_text)),
      (''not_company_page'', \<not> any_in [''about us'', ''our company'', ''contact us''] (lower profile_text))]"

text \<open>\<open>checks[key]\<close>, for a key of the dictionary.\<close>

definition check :: "(string \<times> bool) list \<Rightarrow> string \<Rightarrow> bool" where
  "check cs key = (map_of cs key = Some True)"

definition validate_profile :: "validator \<Rightarrow> string \<Rightarrow> string \<Rightarrow> string \<Rightarrow> string \<Rightarrow> string \<Rightarrow> string \<Rightarrow> validation" where
  "validate_profile v name profile_text title job_title company url =
     (let (score, reason) = calculate_relevance_score v profile_text title job_title company;
          checks = profile_checks v name profile_text;
          checks_passed = length (filter snd checks);
          confidence = real checks_passed / real (length checks);
          is_valid = (0.3 \<le> score \<and> check checks ''has_name'' \<and>
                      check checks ''has_keyword_match'' \<and> check checks ''not_product'')
      in \<lparr>is_valid = is_valid, score = score, reason = reason, confidence = confidence,
          checks = checks\<rparr>)"

section \<open>The email of a search item (the scrape route of app.py)\<close>

text \<open>\<open>s.split(sep)[0]\<close>: the text before the first occurrence of \<open>sep\<close>.\<close>

fun before_sep :: "string \<Rightarrow> string \<Rightarrow> string" where
  "before_sep sep [] = []"
| "before_sep sep (c # cs) = (if startswith (c # cs) sep then [] else c # before_sep sep cs)"

definition item_name :: "string \<Rightarrow> string" where
  "item_name title =
     (let name = strip (before_sep '' - '' (before_sep '' | '' title));
          name2 = (if name = [] then strip (before_sep '' - '' title) else name)
      in if name2 = [] then ''Unknown'' else name2)"

text \<open>
  The contact patterns: a word, \<open>[:\s]+\<close> and the address in a group, searched in the
  snippet with \<open>re.IGNORECASE\<close>. The address has no closing \<open>\b\<close> here. The result is
  the text of the group.
\<close>

definition contact_words :: "string list" where
  "contact_words = [''contact'', ''email'', ''reach'', ''mail'']"

definition match_contact :: "string \<Rightarrow> string \<Rightarrow> string option" where
  "match_contact word s =
     (if lower (take (length word) s) = word
      then (let r = drop (length word) s;
                is_gap = (\<lambda>c. c = CHR '':'' \<or> is_space c)
            in if takeWhile is_gap r = [] then None
               else (case match_address False (dropWhile is_gap r) of
                       Some len \<Rightarrow> Some (take len (dropWhile is_gap r))
                     | None \<Rightarrow> None))
      else None)"

fun search_contact :: "string \<Rightarrow> string \<Rightarrow> string option" where
  "search_contact word [] = None"
| "search_contact word (c # cs) =
     (case match_contact word (c # cs) of Some g \<Rightarrow> Some g | None \<Rightarrow> search_contact word cs)"

text \<open>The loop over the contact patterns: the first match that is not generic.\<close>

fun contact_email :: "string list \<Rightarrow> string \<Rightarrow> string" where
  "contact_email [] snippet = []"
| "contact_email (word # ws) snippet =
     (case search_contact word snippet of
        Some candidate_email \<Rightarrow>
          (if \<not> is_generic_email candidate_email then candidate_email
           else contact_email ws snippet)
      | None \<Rightarrow> contact_email ws snippet)"

text \<open>
  Strategy 3 of the route. The browser automation is the parameter \<open>advanced\<close>: the
  pair of the keys \<open>success\<close> and \<open>emails\<close> of what it returns, \<open>None\<close> when it is
  switched off, not available or raises.
\<close>

definition advanced_email :: "(bool \<times> string list) option \<Rightarrow> string \<Rightarrow> string \<Rightarrow> string" where
  "advanced_email advanced name snippet =
     (case advanced of
        None \<Rightarrow> []
      | Some (success, emails) \<Rightarrow>
          if success \<and> emails \<noteq> [] then
            (case find (\<lambda>c. \<not> is_generic_email c \<and> is_profile_specific_email c name snippet) emails of
               Some c \<Rightarrow> c
             | None \<Rightarrow> (case find (\<lambda>c. \<not> is_generic_email c) emails of Some c \<Rightarrow> c | None \<Rightarrow> []))
          else [])"

text \<open>
  The body of the loop over the search items, as far as it decides the \<open>email\<close> key of
  the appended result: \<open>None\<close> when the item is skipped, otherwise the value of the key.
\<close>

definition item_email :: "(string \<Rightarrow> string option) \<Rightarrow> bool \<Rightarrow> (bool \<times> string list) option \<Rightarrow> string \<Rightarrow> string \<Rightarrow> string \<Rightarrow> string option" where
  "item_email fetch extract_emails_enabled advanced title link snippet =
     (let link_lower = lower link; name = item_name title in
      if title = [] \<and> link = [] then None
      else if any_in [''/company/'', ''/careers/'', ''/jobs/'', ''/team/''] link_lower \<and>
              \<not> contains ''/in/'' link_lower \<and> \<not> contains ''/profile/'' link_lower \<and>
              \<not> contains ''/pub/'' link_lower then None
      else if any_in [''Inc.'', ''LLC'', ''Corp.'', ''Corporation'', ''Company'', ''Ltd.'', ''Limited''] name \<and>
              length (split name) \<le> 2 then None
      else if \<not> extract_emails_enabled then Some []
      else
        (let company = extract_company snippet;
             email1 = extract_email fetch (title @ '' '' @ snippet) link name company link;
             email2 = (if email1 = [] then contact_email contact_words snippet else email1);
             email3 = (if email2 = [] then advanced_email advanced name snippet else email2)
         in if email3 = [] then None
            else if name_parts_of name \<noteq> [] \<and> \<not> any_in (name_parts_of name) (lower email3) then None
            else Some email3))"

section \<open>Deduplication of a result batch (app.py)\<close>

text \<open>
  A result is the dictionary built by the scrape route. Only the keys \<open>profile_url\<close>
  and \<open>email\<close> are read by the deduplication; the other keys are the extension
  part of the record. A missing or \<open>None\<close> value reads as the empty string.
\<close>

record result =
  profile_url :: string
  email :: string

definition norm_email :: "'a result_scheme \<Rightarrow> string" where
  "norm_email r = (if email r \<noteq> [] then strip (lower (email r)) else [])"

text \<open>
  The loop of \<open>deduplicate_results\<close> with its two accumulators: the set of URLs seen
  and the dictionary from an email to the URL that first claimed it.
\<close>

definition skipped :: "string set \<Rightarrow> (string \<rightharpoonup> string) \<Rightarrow> 'a result_scheme \<Rightarrow> bool" where
  "skipped seen_urls seen_emails r =
     (let url = profile_url r; e = norm_email r in
      (url \<noteq> [] \<and> url \<in> seen_urls) \<or>
      (e \<noteq> [] \<and> (case seen_emails e of None \<Rightarrow> False | Some existing_url \<Rightarrow> existing_url \<noteq> url)))"

fun dedup_loop :: "string set \<Rightarrow> (string \<rightharpoonup> string) \<Rightarrow> 'a result_scheme list \<Rightarrow> 'a result_scheme list" where
  "dedup_loop seen_urls seen_emails [] = []"
| "dedup_loop seen_urls seen_emails (r # rs) =
     (if skipped seen_urls seen_emails r then dedup_loop seen_urls seen_emails rs
      else r # dedup_loop
              (if profile_url r \<noteq> [] then insert (profile_url r) seen_urls else seen_urls)
              (if norm_email r \<noteq> [] then seen_emails(norm_email r \<mapsto> profile_url r) else seen_emails)
              rs)"

definition deduplicate_results :: "'a result_scheme list \<Rightarrow> 'a result_scheme list" where
  "deduplicate_results results = dedup_loop {} Map.empty results"

section \<open>Notions used to state the properties\<close>

text \<open>
  The addresses \<open>extract_email\<close> meets, in the order in which it meets them, each with
  the confidence the source gives its strategy: the matches in the text (3), the matches
  in the URL (2) and the address scraped from the profile page (4).
\<close>

definition url_emails :: "string \<Rightarrow> string list" where
  "url_emails url = (if url \<noteq> [] then findall url else [])"

definition scraped_emails :: "(string \<Rightarrow> string option) \<Rightarrow> string \<Rightarrow> string list" where
  "scraped_emails fetch purl =
     (if purl \<noteq> [] \<and> any_in PROFILE_DOMAINS (lower purl) \<and> scrape_profile_for_email fetch purl \<noteq> []
      then [scrape_profile_for_email fetch purl] else [])"

definition tagged_candidates :: "(string \<Rightarrow> string option) \<Rightarrow> string \<Rightarrow> string \<Rightarrow> string \<Rightarrow> (string \<times> nat) list" where
  "tagged_candidates fetch text url purl =
     map (\<lambda>e. (e, 3)) (findall text) @ map (\<lambda>e. (e, 2)) (url_emails url) @
     map (\<lambda>e. (e, 4)) (scraped_emails fetch purl)"

text \<open>An address the early returns of \<open>extract_email\<close> accept: not generic, and profile-specific.\<close>

definition usable :: "string \<Rightarrow> string \<Rightarrow> string \<Rightarrow> bool" where
  "usable name text e = (\<not> is_generic_email e \<and> is_profile_specific_email e name text)"

text \<open>
  The grammar of an address as the specification words it: a local part of
  alphanumerics and \<open>._%+-\<close>, an at sign, a domain of alphanumerics, dots and hyphens,
  and a final label of at least two letters.
\<close>

definition spec_email_grammar :: "string \<Rightarrow> bool" where
  "spec_email_grammar s =
     (let local_part = takeWhile (\<lambda>c. c \<noteq> CHR ''@'') s;
          rest = dropWhile (\<lambda>c. c \<noteq> CHR ''@'') s;
          after_at = drop 1 rest;
          label = rev (takeWhile (\<lambda>c. c \<noteq> CHR ''.'') (rev after_at));
          dom = take (length after_at - length label - 1) after_at
      in local_part \<noteq> [] \<and> list_all is_local local_part \<and> rest \<noteq> [] \<and>
         length label < length after_at \<and> dom \<noteq> [] \<and> list_all is_domain dom \<and>
         2 \<le> length label \<and> list_all is_letter label)"

text \<open>The strings the email pattern matches as a whole.\<close>

definition pattern_grammar :: "string \<Rightarrow> bool" where
  "pattern_grammar s =
     (\<exists>l d t. s = l @ ''@'' @ d @ ''.'' @ t \<and> l \<noteq> [] \<and> list_all is_local l \<and>
        d \<noteq> [] \<and> list_all is_domain d \<and> 2 \<le> length t \<and> list_all is_tld t)"



text \<open>
  The case in which the job title counts: a profile text that is not empty, a job title
  that is not empty and contains a keyword term, and none of the hard rejects of
  \<open>calculate_relevance_score\<close> on the combined text.
\<close>

definition job_title_scenario :: "validator \<Rightarrow> string \<Rightarrow> string \<Rightarrow> string \<Rightarrow> string \<Rightarrow> bool" where
  "job_title_scenario v pt t j c =
     (pt \<noteq> [] \<and> j \<noteq> [] \<and> any_in (keyword_terms v) (lower j) \<and>
      count_in IRRELEVANT_TERMS (combined_text t j c pt) < 2 \<and>
      \<not> any_in product_indicators (combined_text t j c pt) \<and>
      count_in company_page_indicators (combined_text t j c pt) < 2)"

text \<open>Concrete inputs for the examples below.\<close>

definition no_fetch :: "string \<Rightarrow> string option" where
  "no_fetch u = None"

definition example_fetch :: "string \<Rightarrow> string option" where
  "example_fetch u = Some ''Contact: jane.doe@corp.org''"




definition validator_rfid_engineer :: validator where
  "validator_rfid_engineer = KeywordRelevanceValidator [''RFID'', ''engineer'']"

definition validator_rfid :: validator where
  "validator_rfid = KeywordRelevanceValidator [''RFID'']"

section \<open>Substrings\<close>

lemma startswith_iff: "startswith s p \<longleftrightarrow> (\<exists>v. s = p @ v)"
  by (induction s p rule: startswith.induct) auto

lemma contains_iff: "contains sub s \<longleftrightarrow> (\<exists>u v. s = u @ sub @ v)"
proof (induction s)
  case Nil
  then show ?case by auto
next
  case (Cons c cs)
  show ?case
  proof
    assume "contains sub (c # cs)"
    then consider "startswith (c # cs) sub" | "contains sub cs" by auto
    then show "\<exists>u v. c # cs = u @ sub @ v"
    proof cases
      case 1
      then obtain v where "c # cs = sub @ v" unfolding startswith_iff by blast
      then have "c # cs = [] @ sub @ v" by simp
      then show ?thesis by blast
    next
      case 2
      then obtain u v where "cs = u @ sub @ v" using Cons.IH by blast
      then have "c # cs = (c # u) @ sub @ v" by simp
      then show ?thesis by blast
    qed
  next
    assume "\<exists>u v. c # cs = u @ sub @ v"
    then obtain u v where uv: "c # cs = u @ sub @ v" by blast
    show "contains sub (c # cs)"
    proof (cases u)
      case Nil
      with uv have "startswith (c # cs) sub" unfolding startswith_iff by auto
      then show ?thesis by simp
    next
      case (Cons a u')
      with uv have "cs = u' @ sub @ v" by simp
      then have "contains sub cs" using Cons.IH by blast
      then show ?thesis by simp
    qed
  qed
qed

lemma any_in_iff: "any_in ts s \<longleftrightarrow> (\<exists>t\<in>set ts. contains t s)"
  by (simp add: any_in_def list_ex_iff)

section \<open>Properties of the choice of an email\<close>

lemma not_generic_empty: "\<not> is_generic_email []"
  by (simp add: is_generic_email_def any_in_def GENERIC_EMAIL_PATTERNS_def lower_def)

lemma scan_emails_eq:
  "scan_emails name text tier es found =
     (case find (\<lambda>e. \<not> is_generic_email e \<and> is_profile_specific_email e name text) es of
        Some e \<Rightarrow> Inl e
      | None \<Rightarrow> Inr (found @ map (\<lambda>e. (e, tier)) (filter (\<lambda>e. \<not> is_generic_email e) es)))"
  by (induction es arbitrary: found) (auto split: option.splits)

lemma find_tagged: "find (\<lambda>c. P (fst c)) (map (\<lambda>e. (e, t)) es) = map_option (\<lambda>e. (e, t)) (find P es)"
  by (induction es) auto

lemma filter_tagged: "filter (\<lambda>c. P (fst c)) (map (\<lambda>e. (e, t)) es) = map (\<lambda>e. (e, t)) (filter P es)"
  by (induction es) auto

lemma find_app: "find P (xs @ ys) = (case find P xs of Some x \<Rightarrow> Some x | None \<Rightarrow> find P ys)"
  by (induction xs) auto

lemma scan_emails_usable:
  "scan_emails name text tier es found =
     (case find (usable name text) es of
        Some e \<Rightarrow> Inl e
      | None \<Rightarrow> Inr (found @ map (\<lambda>e. (e, tier)) (filter (\<lambda>e. \<not> is_generic_email e) es)))"
  unfolding usable_def by (rule scan_emails_eq)

lemma url_stage_usable:
  "(if url \<noteq> [] then scan_emails name text 2 (findall url) found else Inr found) =
     (case find (usable name text) (url_emails url) of
        Some e \<Rightarrow> Inl e
      | None \<Rightarrow> Inr (found @ map (\<lambda>e. (e, 2)) (filter (\<lambda>e. \<not> is_generic_email e) (url_emails url))))"
  by (cases "url = []") (simp_all add: url_emails_def scan_emails_usable split: option.splits)

lemma scrape_stage_usable:
  "scrape_stage fetch text name purl found =
     (case find (usable name text) (scraped_emails fetch purl) of
        Some e \<Rightarrow> Inl e
      | None \<Rightarrow> Inr (found @ map (\<lambda>e. (e, 4)) (filter (\<lambda>e. \<not> is_generic_email e) (scraped_emails fetch purl))))"
  by (simp add: scrape_stage_def scraped_emails_def usable_def Let_def)

lemma extract_email_eq:
  "extract_email fetch text url name company purl =
     (case find (\<lambda>c. usable name text (fst c)) (tagged_candidates fetch text url purl) of
        Some c \<Rightarrow> fst c
      | None \<Rightarrow> best_match (infer_stage text name company
                  (filter (\<lambda>c. \<not> is_generic_email (fst c)) (tagged_candidates fetch text url purl))))"
  unfolding extract_email_def
  unfolding url_stage_usable scrape_stage_usable
  unfolding scan_emails_usable tagged_candidates_def
  by (simp add: find_app find_tagged[of "usable name text"]
      filter_tagged[of "\<lambda>e. \<not> is_generic_email e"] split: option.splits)

lemma best_match_Nil: "best_match [] = []"
  by (simp add: best_match_def)

lemma best_match_in: "found \<noteq> [] \<Longrightarrow> best_match found \<in> fst ` set found"
proof -
  assume ne: "found \<noteq> []"
  let ?s = "sort_key (\<lambda>x. - int (snd x)) found"
  have "?s \<noteq> []" using ne by (metis length_0_conv length_sort)
  then have "hd ?s \<in> set ?s" by (rule hd_in_set)
  then have "hd ?s \<in> set found" by simp
  then show ?thesis using ne by (simp add: best_match_def)
qed

lemma infer_stage_keep: "found \<noteq> [] \<Longrightarrow> infer_stage text name company found = found"
  by (simp add: infer_stage_def)

lemma add_inferred_not_generic:
  "\<forall>c\<in>set found. \<not> is_generic_email (fst c) \<Longrightarrow>
   \<forall>c\<in>set (add_inferred name company found). \<not> is_generic_email (fst c)"
  by (simp add: add_inferred_def Let_def)

lemma infer_stage_not_generic:
  assumes "\<forall>c\<in>set found. \<not> is_generic_email (fst c)"
  shows "\<forall>c\<in>set (infer_stage text name company found). \<not> is_generic_email (fst c)"
proof -
  let ?f4 = "if found = [] \<and> name \<noteq> [] \<and> company \<noteq> [] then add_inferred name company found else found"
  have f4: "\<forall>c\<in>set ?f4. \<not> is_generic_email (fst c)"
    using assms add_inferred_not_generic[OF assms, of name company] by simp
  show ?thesis
    unfolding infer_stage_def Let_def
    using f4 add_inferred_not_generic[OF f4] by simp
qed

lemma best_match_not_generic:
  assumes "\<forall>c\<in>set found. \<not> is_generic_email (fst c)"
  shows "\<not> is_generic_email (best_match found)"
proof (cases "found = []")
  case True
  then show ?thesis by (simp add: best_match_Nil not_generic_empty)
next
  case False
  from best_match_in[OF this] assms show ?thesis by auto
qed

lemma find_usable_Some:
  "find (\<lambda>c. usable name text (fst c)) cs = Some c \<Longrightarrow> c \<in> set cs \<and> \<not> is_generic_email (fst c)"
  by (auto simp: find_Some_iff usable_def)

lemma extract_email_not_generic:
  "\<not> is_generic_email (extract_email fetch text url name company purl)"
proof (cases "find (\<lambda>c. usable name text (fst c)) (tagged_candidates fetch text url purl)")
  case None
  have "\<forall>c\<in>set (filter (\<lambda>c. \<not> is_generic_email (fst c)) (tagged_candidates fetch text url purl)).
          \<not> is_generic_email (fst c)" by simp
  from best_match_not_generic[OF infer_stage_not_generic[OF this]] None
  show ?thesis by (simp add: extract_email_eq)
next
  case (Some c)
  from find_usable_Some[OF Some] Some show ?thesis by (simp add: extract_email_eq)
qed

lemma contact_email_not_generic: "\<not> is_generic_email (contact_email ws snippet)"
  by (induction ws) (auto simp: not_generic_empty split: option.splits)

lemma advanced_email_not_generic: "\<not> is_generic_email (advanced_email advanced name snippet)"
  by (auto simp: advanced_email_def not_generic_empty find_Some_iff split: option.splits)

lemma item_email_not_generic:
  assumes "item_email fetch enabled advanced title link snippet = Some e"
  shows "\<not> is_generic_email e"
proof -
  let ?name = "item_name title"
  let ?e1 = "extract_email fetch (title @ '' '' @ snippet) link ?name (extract_company snippet) link"
  let ?e2 = "if ?e1 = [] then contact_email contact_words snippet else ?e1"
  let ?e3 = "if ?e2 = [] then advanced_email advanced ?name snippet else ?e2"
  have 2: "\<not> is_generic_email ?e2"
    using extract_email_not_generic[of fetch "title @ '' '' @ snippet" link ?name "extract_company snippet" link]
      contact_email_not_generic[of contact_words snippet] by simp
  have 3: "\<not> is_generic_email ?e3"
    using 2 advanced_email_not_generic[of advanced ?name snippet] by simp
  from assms have "e = [] \<or> e = ?e3"
    unfolding item_email_def Let_def by (simp split: if_splits)
  with 3 show ?thesis by (auto simp: not_generic_empty)
qed

lemma is_generic_email_iff:
  "is_generic_email e \<longleftrightarrow> (\<exists>p\<in>set GENERIC_EMAIL_PATTERNS. \<exists>u v. lower e = u @ p @ v)"
  by (simp add: is_generic_email_def any_in_iff contains_iff)

text \<open>The highest confidence wins among the addresses found, the first one among equals.\<close>

lemma hd_insort_key:
  "hd (insort_key f x ys) = (if ys = [] \<or> f x \<le> f (hd ys) then x else hd ys)"
  by (cases ys) auto

lemma hd_sort_key_first_min:
  fixes f :: "'a \<Rightarrow> int"
  assumes "xs \<noteq> []"
  shows "\<exists>i<length xs. hd (sort_key f xs) = xs ! i \<and>
           (\<forall>j<length xs. f (xs ! i) \<le> f (xs ! j)) \<and> (\<forall>j<i. f (xs ! i) < f (xs ! j))"
  using assms
proof (induction xs)
  case Nil
  then show ?case by simp
next
  case (Cons x xs)
  show ?case
  proof (cases "xs = []")
    case True
    then show ?thesis by simp
  next
    case False
    from Cons.IH[OF False] obtain i where i: "i < length xs" "hd (sort_key f xs) = xs ! i"
      "\<forall>j<length xs. f (xs ! i) \<le> f (xs ! j)" "\<forall>j<i. f (xs ! i) < f (xs ! j)" by blast
    have ne: "sort_key f xs \<noteq> []" using False by (metis length_0_conv length_sort)
    have hd: "hd (sort_key f (x # xs)) = (if f x \<le> f (xs ! i) then x else xs ! i)"
      using ne i(2) by (simp add: hd_insort_key)
    show ?thesis
    proof (cases "f x \<le> f (xs ! i)")
      case True
      have "\<forall>j<length (x # xs). f ((x # xs) ! 0) \<le> f ((x # xs) ! j)"
      proof (intro allI impI)
        fix j assume "j < length (x # xs)"
        then show "f ((x # xs) ! 0) \<le> f ((x # xs) ! j)"
          using True i(3) by (cases j) (auto intro: order_trans)
      qed
      then show ?thesis using hd True by (intro exI[of _ 0]) simp
    next
      case F: False
      have a: "\<forall>j<length (x # xs). f ((x # xs) ! Suc i) \<le> f ((x # xs) ! j)"
      proof (intro allI impI)
        fix j assume "j < length (x # xs)"
        then show "f ((x # xs) ! Suc i) \<le> f ((x # xs) ! j)"
          using F i(3) by (cases j) auto
      qed
      have b: "\<forall>j<Suc i. f ((x # xs) ! Suc i) < f ((x # xs) ! j)"
      proof (intro allI impI)
        fix j assume "j < Suc i"
        then show "f ((x # xs) ! Suc i) < f ((x # xs) ! j)"
          using F i(4) by (cases j) auto
      qed
      show ?thesis using hd F i(1) a b by (intro exI[of _ "Suc i"]) simp
    qed
  qed
qed

lemma best_match_first_max:
  assumes "found \<noteq> []"
  shows "\<exists>i<length found. best_match found = fst (found ! i) \<and>
           (\<forall>j<length found. snd (found ! j) \<le> snd (found ! i)) \<and>
           (\<forall>j<i. snd (found ! j) < snd (found ! i))"
proof -
  from hd_sort_key_first_min[OF assms, of "\<lambda>x. - int (snd x)"]
  obtain i where "i < length found" "hd (sort_key (\<lambda>x. - int (snd x)) found) = found ! i"
    "\<forall>j<length found. - int (snd (found ! i)) \<le> - int (snd (found ! j))"
    "\<forall>j<i. - int (snd (found ! i)) < - int (snd (found ! j))" by blast
  then show ?thesis using assms by (intro exI[of _ i]) (simp add: best_match_def)
qed

text \<open>
  Where a result of \<open>extract_email\<close> comes from: the matches of the email pattern
  all have its grammar, and so has every result that is not inferred.
\<close>

lemma take_run: "n \<le> length (takeWhile P s) \<Longrightarrow> list_all P (take n s) \<and> length (take n s) = n"
proof -
  assume n: "n \<le> length (takeWhile P s)"
  have "take n s = take n (takeWhile P s)"
    using n by (metis append_eq_conv_conj takeWhile_dropWhile_id take_append take_all_iff
        diff_is_0_eq' take_0 append_Nil2)
  moreover have "list_all P (takeWhile P s)" by (simp add: list_all_iff) (meson set_takeWhileD)
  ultimately show ?thesis using n
    by (metis length_take list_all_iff min.absorb2 in_set_takeD)
qed

lemma try_tld_Some: "try_tld l b r = Some n \<Longrightarrow> 2 \<le> n \<and> n \<le> l"
  by (induction l) (auto split: if_splits)

lemma try_domain_Some:
  "try_domain k b d = Some e \<Longrightarrow>
   \<exists>k' n. 1 \<le> k' \<and> k' \<le> k \<and> nth_opt d k' = Some CHR ''.'' \<and>
     match_tld b (drop (Suc k') d) = Some n \<and> e = k' + 1 + n"
proof (induction k)
  case 0
  then show ?case by simp
next
  case (Suc k)
  show ?case
  proof (cases "nth_opt d (Suc k) = Some CHR ''.'' \<and> match_tld b (drop (Suc (Suc k)) d) \<noteq> None")
    case True
    then obtain n where "match_tld b (drop (Suc (Suc k)) d) = Some n" by auto
    with True Suc.prems show ?thesis by (intro exI[of _ "Suc k"] exI[of _ n]) auto
  next
    case False
    with Suc.prems have "try_domain k b d = Some e" by (auto split: if_splits option.splits)
    from Suc.IH[OF this] show ?thesis by (metis le_SucI)
  qed
qed

lemma match_address_grammar:
  assumes "match_address b s = Some len"
  shows "pattern_grammar (take len s) \<and> 0 < len \<and> len \<le> length s"
proof -
  define n where "n = length (takeWhile is_local s)"
  define d where "d = drop (Suc n) s"
  from assms have n0: "0 < n" and at: "nth_opt s n = Some CHR ''@''"
    and md: "\<exists>e. match_domain b d = Some e \<and> len = n + 1 + e"
    unfolding match_address_def Let_def n_def d_def by (auto split: if_splits option.splits)
  then obtain e where e: "match_domain b d = Some e" "len = n + 1 + e" by blast
  from try_domain_Some[OF e(1)[unfolded match_domain_def]]
  obtain k m where k: "1 \<le> k" "k \<le> length (takeWhile is_domain d)" "nth_opt d k = Some CHR ''.''"
    "match_tld b (drop (Suc k) d) = Some m" "e = k + 1 + m" by blast
  define r where "r = drop (Suc k) d"
  from try_tld_Some[OF k(4)[unfolded match_tld_def]]
  have m: "2 \<le> m" "m \<le> length (takeWhile is_tld r)" unfolding r_def by auto
  have L: "list_all is_local (take n s)" "length (take n s) = n"
    using take_run[of n is_local s] unfolding n_def by auto
  have D: "list_all is_domain (take k d)" "length (take k d) = k"
    using take_run[OF k(2)] by auto
  have T: "list_all is_tld (take m r)" "length (take m r) = m"
    using take_run[OF m(2)] by auto
  have sn: "n < length s" "s ! n = CHR ''@''" using at by (auto simp: nth_opt_def split: if_splits)
  have dk: "k < length d" "d ! k = CHR ''.''" using k(3) by (auto simp: nth_opt_def split: if_splits)
  have s: "s = take n s @ CHR ''@'' # d" unfolding d_def using sn by (metis id_take_nth_drop)
  have dd: "d = take k d @ CHR ''.'' # r" unfolding r_def using dk by (metis id_take_nth_drop)
  have "take len s = take n s @ CHR ''@'' # take k d @ CHR ''.'' # take m r"
  proof -
    have "take len s = take len (take n s @ CHR ''@'' # take k d @ CHR ''.'' # r)"
      using s dd by metis
    also have "\<dots> = take n s @ CHR ''@'' # take k d @ CHR ''.'' # take m r"
      using L(2) D(2) e(2) k(5) by simp
    finally show ?thesis .
  qed
  then have eq: "take len s = take n s @ ''@'' @ take k d @ ''.'' @ take m r" by simp
  have g: "pattern_grammar (take len s)"
    unfolding pattern_grammar_def
    apply (rule exI[of _ "take n s"], rule exI[of _ "take k d"], rule exI[of _ "take m r"])
    using eq L D T n0 k(1) m(1) by auto
  have "length (take len s) = len" unfolding eq using L(2) D(2) T(2) e(2) k(5) by simp
  then have "len \<le> length s" by simp
  with g e(2) show ?thesis by simp
qed

lemma findall_from_grammar: "e \<in> set (findall_from p s) \<Longrightarrow> pattern_grammar e"
proof (induction p s rule: findall_from.induct)
  case (1 prev)
  then show ?case by simp
next
  case (2 prev c cs)
  show ?case
  proof (cases "match_email prev (c # cs)")
    case None
    with 2 show ?thesis by simp
  next
    case (Some len)
    then have "match_address True (c # cs) = Some len" by (simp add: match_email_def split: if_splits)
    from match_address_grammar[OF this] have "pattern_grammar (take len (c # cs))" by simp
    with 2 Some show ?thesis by auto
  qed
qed

lemma findall_grammar: "e \<in> set (findall text) \<Longrightarrow> pattern_grammar e"
  unfolding findall_def by (rule findall_from_grammar)

lemma local_not_at: "is_local c \<Longrightarrow> c \<noteq> CHR ''@''"
proof
  assume "is_local c" "c = CHR ''@''"
  then have "is_local CHR ''@''" by simp
  moreover have "\<not> is_local CHR ''@''" by code_simp
  ultimately show False by simp
qed

lemma tld_not_dot: "is_tld c \<Longrightarrow> c \<noteq> CHR ''.''"
proof
  assume "is_tld c" "c = CHR ''.''"
  then have "is_tld CHR ''.''" by simp
  moreover have "\<not> is_tld CHR ''.''" by code_simp
  ultimately show False by simp
qed

lemma takeWhile_all: "\<forall>x\<in>set l. P x \<Longrightarrow> \<not> P y \<Longrightarrow> takeWhile P (l @ y # r) = l"
  by (induction l) auto

lemma dropWhile_all: "\<forall>x\<in>set l. P x \<Longrightarrow> \<not> P y \<Longrightarrow> dropWhile P (l @ y # r) = y # r"
  by (induction l) auto

lemma pattern_grammar_spec:
  assumes "pattern_grammar e" "CHR ''|'' \<notin> set e"
  shows "spec_email_grammar e"
proof -
  from assms(1) obtain l d t where e: "e = l @ ''@'' @ d @ ''.'' @ t" and l: "l \<noteq> []" "list_all is_local l"
    and d: "d \<noteq> []" "list_all is_domain d" and t: "2 \<le> length t" "list_all is_tld t"
    unfolding pattern_grammar_def by blast
  have e': "e = l @ CHR ''@'' # (d @ CHR ''.'' # t)" using e by simp
  have lat: "\<forall>x\<in>set l. x \<noteq> CHR ''@''" using l(2) local_not_at by (auto simp: list_all_iff)
  have tdot: "\<forall>x\<in>set (rev t). x \<noteq> CHR ''.''" using t(2) tld_not_dot by (auto simp: list_all_iff)
  have tw: "takeWhile (\<lambda>c. c \<noteq> CHR ''@'') e = l"
    unfolding e' using takeWhile_all[of l "\<lambda>c. c \<noteq> CHR ''@''" "CHR ''@''"] lat by simp
  have dw: "dropWhile (\<lambda>c. c \<noteq> CHR ''@'') e = CHR ''@'' # (d @ CHR ''.'' # t)"
    unfolding e' using dropWhile_all[of l "\<lambda>c. c \<noteq> CHR ''@''" "CHR ''@''"] lat by simp
  have rv: "rev (d @ CHR ''.'' # t) = rev t @ CHR ''.'' # rev d" by simp
  have lb: "rev (takeWhile (\<lambda>c. c \<noteq> CHR ''.'') (rev (d @ CHR ''.'' # t))) = t"
    unfolding rv using takeWhile_all[of "rev t" "\<lambda>c. c \<noteq> CHR ''.''" "CHR ''.''" "rev d"] tdot by simp
  have letters: "list_all is_letter t"
    using t(2) assms(2) unfolding e' by (auto simp: list_all_iff is_tld_def)
  have a: "drop 1 (CHR ''@'' # (d @ CHR ''.'' # t)) = d @ CHR ''.'' # t" by simp
  have dm: "take (length (d @ CHR ''.'' # t) - length t - 1) (d @ CHR ''.'' # t) = d" by simp
  have ln: "length t < length (d @ CHR ''.'' # t)" by simp
  show ?thesis
    unfolding spec_email_grammar_def Let_def tw dw a lb dm
    using l d t(1) letters ln by blast
qed

lemma scrape_profile_for_email_grammar:
  "scrape_profile_for_email fetch u = [] \<or> pattern_grammar (scrape_profile_for_email fetch u)"
proof (cases "fetch u")
  case None
  then show ?thesis by (simp add: scrape_profile_for_email_def)
next
  case (Some content)
  let ?f = "filter (\<lambda>e. \<not> any_in SCRAPE_SKIP (lower e)) (findall content)"
  show ?thesis
  proof (cases "findall content = []")
    case True
    with Some show ?thesis by (simp add: scrape_profile_for_email_def)
  next
    case False
    have "hd (findall content) \<in> set (findall content)" using False by simp
    moreover have "?f \<noteq> [] \<Longrightarrow> hd ?f \<in> set (findall content)"
      using hd_in_set[of ?f] by auto
    ultimately have "pattern_grammar (scrape_profile_for_email fetch u)"
      using Some False findall_grammar[of _ content]
      by (auto simp: scrape_profile_for_email_def Let_def)
    then show ?thesis by simp
  qed
qed

lemma tagged_candidates_grammar:
  "c \<in> set (tagged_candidates fetch text url purl) \<Longrightarrow> pattern_grammar (fst c)"
  using scrape_profile_for_email_grammar[of fetch purl]
  by (auto simp: tagged_candidates_def url_emails_def scraped_emails_def findall_grammar
      split: if_splits)

lemma infer_stage_members:
  "c \<in> set (infer_stage text name company found) \<Longrightarrow>
   c \<in> set found \<or> fst c = infer_email_from_name_company name company \<or>
   fst c = infer_email_from_name_company name (extract_company text)"
  by (auto simp: infer_stage_def add_inferred_def Let_def split: if_splits)

lemma extract_email_origin:
  "extract_email fetch text url name company purl = [] \<or>
   pattern_grammar (extract_email fetch text url name company purl) \<or>
   extract_email fetch text url name company purl = infer_email_from_name_company name company \<or>
   extract_email fetch text url name company purl = infer_email_from_name_company name (extract_company text)"
proof (cases "find (\<lambda>c. usable name text (fst c)) (tagged_candidates fetch text url purl)")
  case (Some c)
  then have "c \<in> set (tagged_candidates fetch text url purl)" using find_usable_Some by blast
  from tagged_candidates_grammar[OF this] Some show ?thesis by (simp add: extract_email_eq)
next
  case None
  let ?F = "filter (\<lambda>c. \<not> is_generic_email (fst c)) (tagged_candidates fetch text url purl)"
  let ?I = "infer_stage text name company ?F"
  have r: "extract_email fetch text url name company purl = best_match ?I"
    using None by (simp add: extract_email_eq)
  show ?thesis
  proof (cases "?I = []")
    case True
    then show ?thesis unfolding r by (simp add: best_match_Nil)
  next
    case False
    from best_match_in[OF False] obtain c where c: "c \<in> set ?I" "best_match ?I = fst c" by auto
    from infer_stage_members[OF c(1)] tagged_candidates_grammar[of c fetch "text" url purl]
    show ?thesis unfolding r c(2) by auto
  qed
qed

text \<open>
  C1, as the code has it: when some address the code meets is neither generic nor
  rejected as not profile-specific, \<open>extract_email\<close> returns the first such address in
  the order text, URL, scraped page. The confidence of the strategy plays no part in
  this choice.
\<close>

theorem extract_email_first_specific:
  assumes "find (\<lambda>c. usable name text (fst c)) (tagged_candidates fetch text url purl) = Some c"
  shows "extract_email fetch text url name company purl = fst c"
  using assms by (simp add: extract_email_eq)

text \<open>
  An instance: the address found in the text (confidence 3) is the first usable one, and
  it is returned.
\<close>

theorem extract_email_first_specific_witness:
  "find (\<lambda>c. usable ''Jane Doe'' ''Jane Doe jane@acme.com'' (fst c))
     (tagged_candidates example_fetch ''Jane Doe jane@acme.com'' [] ''https://github.com/janedoe'')
     = Some (''jane@acme.com'', 3) \<and>
   extract_email example_fetch ''Jane Doe jane@acme.com'' [] ''Jane Doe'' [] ''https://github.com/janedoe''
     = ''jane@acme.com''"
proof -
  have h: "find (\<lambda>c. usable ''Jane Doe'' ''Jane Doe jane@acme.com'' (fst c))
     (tagged_candidates example_fetch ''Jane Doe jane@acme.com'' [] ''https://github.com/janedoe'')
     = Some (''jane@acme.com'', 3)"
    by code_simp
  from extract_email_first_specific[OF h, of "[]"] h show ?thesis by simp
qed

text \<open>
  The same input shows that the highest confidence does not win: the page of the profile
  holds a profile-specific address (confidence 4), the text holds another one
  (confidence 3), and the address of the text is returned.
\<close>

theorem extract_email_tier_counterexample:
  "scrape_profile_for_email example_fetch ''https://github.com/janedoe'' = ''jane.doe@corp.org'' \<and>
   any_in PROFILE_DOMAINS (lower ''https://github.com/janedoe'') \<and>
   \<not> is_generic_email ''jane.doe@corp.org'' \<and>
   is_profile_specific_email ''jane.doe@corp.org'' ''Jane Doe'' ''Jane Doe jane@acme.com'' \<and>
   findall ''Jane Doe jane@acme.com'' = [''jane@acme.com''] \<and>
   \<not> is_generic_email ''jane@acme.com'' \<and>
   is_profile_specific_email ''jane@acme.com'' ''Jane Doe'' ''Jane Doe jane@acme.com'' \<and>
   extract_email example_fetch ''Jane Doe jane@acme.com'' [] ''Jane Doe'' [] ''https://github.com/janedoe''
     = ''jane@acme.com''"
  by code_simp

text \<open>
  C2: an address whose lower-cased text contains a generic pattern anywhere is never the
  result of \<open>extract_email\<close>, and never the email of a result the scrape route appends.
\<close>

theorem generic_never_attributed:
  assumes "p \<in> set GENERIC_EMAIL_PATTERNS" and "lower e = u @ p @ v"
  shows "extract_email fetch text url name company purl \<noteq> e \<and>
         item_email fetch enabled advanced title link snippet \<noteq> Some e"
proof -
  have g: "is_generic_email e" unfolding is_generic_email_iff using assms by blast
  have "extract_email fetch text url name company purl \<noteq> e"
    using extract_email_not_generic[of fetch "text" url name company purl] g by auto
  moreover have "item_email fetch enabled advanced title link snippet \<noteq> Some e"
    using item_email_not_generic[of fetch enabled advanced title link snippet e] g by auto
  ultimately show ?thesis by simp
qed

theorem generic_never_attributed_witness:
  "''support@'' \<in> set GENERIC_EMAIL_PATTERNS \<and> lower ''Support@acme.com'' = [] @ ''support@'' @ ''acme.com'' \<and>
   findall ''Ann Lee Support@acme.com'' = [''Support@acme.com''] \<and>
   extract_email no_fetch ''Ann Lee Support@acme.com'' [] ''Ann Lee'' [] [] \<noteq> ''Support@acme.com'' \<and>
   item_email no_fetch True None ''Ann Lee'' ''http://acme.com/ann'' ''Support@acme.com'' \<noteq> Some ''Support@acme.com''"
proof -
  have p: "''support@'' \<in> set GENERIC_EMAIL_PATTERNS" by code_simp
  have l: "lower ''Support@acme.com'' = [] @ ''support@'' @ ''acme.com''" by code_simp
  have f: "findall ''Ann Lee Support@acme.com'' = [''Support@acme.com'']" by code_simp
  from generic_never_attributed[OF p l, of no_fetch "''Ann Lee Support@acme.com''" "[]" "''Ann Lee''" "[]" "[]"
      True None "''Ann Lee''" "''http://acme.com/ann''" "''Support@acme.com''"] p l f
  show ?thesis by simp
qed

text \<open>
  C4: the inference step leaves a list of found addresses that is not empty as it is,
  and when the code meets an address that is not generic, the result of
  \<open>extract_email\<close> is one of the addresses it met that are not generic, whatever their
  confidence.
\<close>

theorem inferred_only_last_resort:
  "(found \<noteq> [] \<longrightarrow> infer_stage text name company found = found) \<and>
   ((\<exists>c\<in>set (tagged_candidates fetch text url purl). \<not> is_generic_email (fst c)) \<longrightarrow>
    (\<exists>c\<in>set (tagged_candidates fetch text url purl). \<not> is_generic_email (fst c) \<and>
       extract_email fetch text url name company purl = fst c))"
proof (intro conjI impI)
  assume "found \<noteq> []"
  then show "infer_stage text name company found = found" by (rule infer_stage_keep)
next
  let ?cs = "tagged_candidates fetch text url purl"
  let ?F = "filter (\<lambda>c. \<not> is_generic_email (fst c)) ?cs"
  assume ex: "\<exists>c\<in>set ?cs. \<not> is_generic_email (fst c)"
  show "\<exists>c\<in>set ?cs. \<not> is_generic_email (fst c) \<and> extract_email fetch text url name company purl = fst c"
  proof (cases "find (\<lambda>c. usable name text (fst c)) ?cs")
    case (Some c)
    from find_usable_Some[OF Some] Some show ?thesis by (auto simp: extract_email_eq)
  next
    case None
    have ne: "?F \<noteq> []" using ex by (auto simp: filter_empty_conv)
    have "extract_email fetch text url name company purl = best_match ?F"
      using None by (simp add: extract_email_eq infer_stage_keep[OF ne])
    moreover from best_match_in[OF ne] obtain c where "c \<in> set ?F" "best_match ?F = fst c" by auto
    ultimately show ?thesis by auto
  qed
qed

text \<open>
  An instance: the text holds an address that is not profile-specific, an address could
  be inferred from the name and the company, and the address of the text is returned.
\<close>

theorem inferred_only_last_resort_witness:
  "tagged_candidates no_fetch ''Bob Roe at Initech, x@y.org'' [] [] = [(''x@y.org'', 3)] \<and>
   \<not> is_generic_email ''x@y.org'' \<and>
   \<not> is_profile_specific_email ''x@y.org'' ''Bob Roe'' ''Bob Roe at Initech, x@y.org'' \<and>
   infer_email_from_name_company ''Bob Roe'' ''Acme'' = ''bob.roe@acme'' \<and>
   extract_email no_fetch ''Bob Roe at Initech, x@y.org'' [] ''Bob Roe'' ''Acme'' [] = ''x@y.org''"
proof -
  have t: "tagged_candidates no_fetch ''Bob Roe at Initech, x@y.org'' [] [] = [(''x@y.org'', 3)]"
    by code_simp
  have g: "\<not> is_generic_email ''x@y.org''" by code_simp
  have s: "\<not> is_profile_specific_email ''x@y.org'' ''Bob Roe'' ''Bob Roe at Initech, x@y.org''"
    by code_simp
  have i: "infer_email_from_name_company ''Bob Roe'' ''Acme'' = ''bob.roe@acme''" by code_simp
  have "\<exists>c\<in>set (tagged_candidates no_fetch ''Bob Roe at Initech, x@y.org'' [] []). \<not> is_generic_email (fst c)"
    unfolding t using g by simp
  with inferred_only_last_resort[of "[]" "''Bob Roe at Initech, x@y.org''" "''Bob Roe''" "''Acme''" no_fetch "[]" "[]"]
  have "extract_email no_fetch ''Bob Roe at Initech, x@y.org'' [] ''Bob Roe'' ''Acme'' [] = ''x@y.org''"
    unfolding t by simp
  with t g s i show ?thesis by simp
qed

text \<open>
  C8 at a concrete profile: no address occurs in the text, the address inferred from
  the name and the company has no final label, it is returned all the same, and the
  email pattern itself does not match it.
\<close>

theorem inferred_email_outside_grammar:
  "infer_email_from_name_company ''John Doe'' ''Acme'' = ''john.doe@acme'' \<and>
   extract_email no_fetch ''John Doe, engineer'' [] ''John Doe'' ''Acme'' [] = ''john.doe@acme'' \<and>
   \<not> spec_email_grammar ''john.doe@acme'' \<and>
   findall ''john.doe@acme'' = [] \<and>
   spec_email_grammar ''john.doe@acme.com''"
  by code_simp

text \<open>
  The class of the final label in the pattern holds the bar, so a match of the pattern
  can have a final label that is not made of letters.
\<close>

lemma pattern_accepts_bar:
  "findall ''mail jane@acme.c|m now'' = [''jane@acme.c|m''] \<and> \<not> spec_email_grammar ''jane@acme.c|m''"
  by code_simp

section \<open>Properties of the deduplication\<close>

lemma dedup_loop_idem:
  "dedup_loop su se (dedup_loop su se rs) = dedup_loop su se rs"
  by (induction rs arbitrary: su se) simp_all

text \<open>
  C9: \<open>deduplicate_results\<close> is idempotent: applied to its own output it returns that
  output unchanged.
\<close>

theorem deduplicate_results_idempotent:
  "deduplicate_results (deduplicate_results results) = deduplicate_results results"
  unfolding deduplicate_results_def by (rule dedup_loop_idem)





















section \<open>Properties of the keyword relevance\<close>

lemma base_score_nonneg: "0 \<le> base_score v km pc j c"
  by (simp add: base_score_def Let_def)

lemma calculate_relevance_score_bounds:
  "0 \<le> fst (calculate_relevance_score v pt t j c) \<and> fst (calculate_relevance_score v pt t j c) \<le> 1"
  using base_score_nonneg[of v "count_in (keyword_terms v) (combined_text t j c pt)"
      "count_in PROFESSIONAL_TERMS (combined_text t j c pt)" j c]
  by (simp add: calculate_relevance_score_def Let_def)

lemma validate_profile_score:
  "score (validate_profile v name pt t j c u) = fst (calculate_relevance_score v pt t j c)"
  by (simp add: validate_profile_def Let_def split: prod.splits)

lemma validate_profile_checks:
  "checks (validate_profile v name pt t j c u) = profile_checks v name pt"
  by (simp add: validate_profile_def Let_def split: prod.splits)

lemma validate_profile_is_valid:
  "is_valid (validate_profile v name pt t j c u) =
     (0.3 \<le> fst (calculate_relevance_score v pt t j c) \<and>
      check (profile_checks v name pt) ''has_name'' \<and>
      check (profile_checks v name pt) ''has_keyword_match'' \<and>
      check (profile_checks v name pt) ''not_product'')"
  by (simp add: validate_profile_def Let_def split: prod.splits)

lemma validate_profile_confidence:
  "confidence (validate_profile v name pt t j c u) =
     real (length (filter snd (profile_checks v name pt))) / real (length (profile_checks v name pt))"
  by (simp add: validate_profile_def Let_def split: prod.splits)

lemma check_has_name:
  "check (profile_checks v name pt) ''has_name'' = (name \<noteq> [] \<and> name \<noteq> ''Unknown'' \<and> 2 < length name)"
  by (simp add: check_def profile_checks_def)

lemma check_has_keyword_match:
  "check (profile_checks v name pt) ''has_keyword_match'' = any_in (keyword_terms v) (lower pt)"
  by (simp add: check_def profile_checks_def)

lemma check_not_product:
  "check (profile_checks v name pt) ''not_product'' = (\<not> any_in (take 5 IRRELEVANT_TERMS) (lower pt))"
  by (simp add: check_def profile_checks_def)

lemma length_profile_checks: "length (profile_checks v name pt) = 5"
  by (simp add: profile_checks_def)

lemma lower_append: "lower (a @ b) = lower a @ lower b"
  by (simp add: lower_def)

lemma contains_job_title:
  assumes "contains x (lower j)"
  shows "contains x (combined_text t j c pt)"
proof -
  from assms obtain a b where ab: "lower j = a @ x @ b" unfolding contains_iff by blast
  have "combined_text t j c pt = (lower t @ lower '' '') @ lower j @ lower ('' '' @ c @ '' '' @ pt)"
    unfolding combined_text_def lower_def by simp
  then have "combined_text t j c pt = (lower t @ lower '' '' @ a) @ x @ (b @ lower ('' '' @ c @ '' '' @ pt))"
    unfolding ab by simp
  then show ?thesis unfolding contains_iff by blast
qed

lemma count_in_pos: "x \<in> set ts \<Longrightarrow> contains x s \<Longrightarrow> 0 < count_in ts s"
  by (auto simp: count_in_def filter_empty_conv)

lemma job_title_match_score:
  assumes "pt \<noteq> []" "j \<noteq> []" "any_in (keyword_terms v) (lower j)"
    "count_in IRRELEVANT_TERMS (combined_text t j c pt) < 2"
    "\<not> any_in product_indicators (combined_text t j c pt)"
    "count_in company_page_indicators (combined_text t j c pt) < 2"
  shows "0.2 < fst (calculate_relevance_score v pt t j c)"
proof -
  let ?km = "count_in (keyword_terms v) (combined_text t j c pt)"
  let ?pc = "count_in PROFESSIONAL_TERMS (combined_text t j c pt)"
  from assms(3) obtain x where x: "x \<in> set (keyword_terms v)" "contains x (lower j)"
    unfolding any_in_iff by blast
  have km: "0 < ?km" using count_in_pos[OF x(1) contains_job_title[OF x(2)]] .
  have n: "0 < length (keyword_terms v)" using x(1) by (cases "keyword_terms v") auto
  define K where "K = min (real ?km / real (length (keyword_terms v))) 1 * 0.4"
  define P where "P = min (real ?pc / 5) 1 * 0.3"
  have K: "0 < K" unfolding K_def using km n by simp
  have P: "0 \<le> P" unfolding P_def by simp
  have "base_score v ?km ?pc j c =
          K + (if 0 < ?pc then P else 0) + 0.2 +
          (if c \<noteq> [] \<and> any_in (keyword_terms v) (lower c) then 0.1 else 0)"
    using km assms(2,3) unfolding base_score_def Let_def K_def P_def by simp
  then have "0.2 < base_score v ?km ?pc j c"
    using K P by simp
  then have "0.2 < min (base_score v ?km ?pc j c) 1" by simp
  then show ?thesis
    using assms(1,4,5,6) by (simp add: calculate_relevance_score_def Let_def)
qed

text \<open>
  C5: the score is 0 whenever at least two irrelevant terms occur in the combined text,
  or one product indicator occurs in it, or at least two company-page phrases occur in
  it.
\<close>

theorem hard_rejects_force_zero:
  assumes "2 \<le> count_in IRRELEVANT_TERMS (combined_text t j c pt) \<or>
           any_in product_indicators (combined_text t j c pt) \<or>
           2 \<le> count_in company_page_indicators (combined_text t j c pt)"
  shows "fst (calculate_relevance_score v pt t j c) = 0"
  using assms by (auto simp: calculate_relevance_score_def Let_def)

theorem hard_rejects_force_zero_witness:
  "2 \<le> count_in IRRELEVANT_TERMS (combined_text [] [] [] ''Buy our RFID blocking wallet now, 20% off, add to cart'') \<and>
   fst (calculate_relevance_score validator_rfid ''Buy our RFID blocking wallet now, 20% off, add to cart'' [] [] []) = 0 \<and>
   count_in IRRELEVANT_TERMS (combined_text [] [] [] ''RFID engineer, best price'') = 1 \<and>
   any_in product_indicators (combined_text [] [] [] ''RFID engineer, best price'') \<and>
   fst (calculate_relevance_score validator_rfid ''RFID engineer, best price'' [] [] []) = 0 \<and>
   count_in IRRELEVANT_TERMS (combined_text [] [] [] ''About us. Contact us. RFID'') = 0 \<and>
   \<not> any_in product_indicators (combined_text [] [] [] ''About us. Contact us. RFID'') \<and>
   2 \<le> count_in company_page_indicators (combined_text [] [] [] ''About us. Contact us. RFID'') \<and>
   fst (calculate_relevance_score validator_rfid ''About us. Contact us. RFID'' [] [] []) = 0"
proof -
  have a: "2 \<le> count_in IRRELEVANT_TERMS (combined_text [] [] [] ''Buy our RFID blocking wallet now, 20% off, add to cart'')"
    by code_simp
  have b: "count_in IRRELEVANT_TERMS (combined_text [] [] [] ''RFID engineer, best price'') = 1 \<and>
           any_in product_indicators (combined_text [] [] [] ''RFID engineer, best price'')"
    by code_simp
  have c: "count_in IRRELEVANT_TERMS (combined_text [] [] [] ''About us. Contact us. RFID'') = 0 \<and>
   \<not> any_in product_indicators (combined_text [] [] [] ''About us. Contact us. RFID'') \<and>
   2 \<le> count_in company_page_indicators (combined_text [] [] [] ''About us. Contact us. RFID'')"
    by code_simp
  from hard_rejects_force_zero[of "[]" "[]" "[]" "''Buy our RFID blocking wallet now, 20% off, add to cart''" validator_rfid]
    hard_rejects_force_zero[of "[]" "[]" "[]" "''RFID engineer, best price''" validator_rfid]
    hard_rejects_force_zero[of "[]" "[]" "[]" "''About us. Contact us. RFID''" validator_rfid]
    a b c
  show ?thesis by blast
qed

text \<open>
  C6: \<open>is_valid\<close> holds exactly when the score is at least 0.3 and the checks
  \<open>has_name\<close>, \<open>has_keyword_match\<close> and \<open>not_product\<close> pass; the confidence is the
  number of checks that pass divided by five, the number of checks.
\<close>

theorem validate_profile_decision:
  "is_valid (validate_profile v name pt t j c u) =
     (0.3 \<le> score (validate_profile v name pt t j c u) \<and>
      check (checks (validate_profile v name pt t j c u)) ''has_name'' \<and>
      check (checks (validate_profile v name pt t j c u)) ''has_keyword_match'' \<and>
      check (checks (validate_profile v name pt t j c u)) ''not_product'') \<and>
   score (validate_profile v name pt t j c u) = fst (calculate_relevance_score v pt t j c) \<and>
   map fst (checks (validate_profile v name pt t j c u)) =
     [''has_name'', ''has_keyword_match'', ''is_professional'', ''not_product'', ''not_company_page''] \<and>
   confidence (validate_profile v name pt t j c u) =
     real (length (filter snd (checks (validate_profile v name pt t j c u)))) / 5 \<and>
   check (checks (validate_profile v name pt t j c u)) ''has_name'' =
     (name \<noteq> [] \<and> name \<noteq> ''Unknown'' \<and> 2 < length name) \<and>
   check (checks (validate_profile v name pt t j c u)) ''has_keyword_match'' =
     any_in (keyword_terms v) (lower pt) \<and>
   check (checks (validate_profile v name pt t j c u)) ''not_product'' =
     (\<not> any_in (take 5 IRRELEVANT_TERMS) (lower pt))"
  unfolding validate_profile_score validate_profile_checks validate_profile_is_valid
    validate_profile_confidence length_profile_checks check_has_name check_has_keyword_match
    check_not_product
  by (simp add: profile_checks_def)

text \<open>
  C7: the score lies between 0 and 1, and a valid result has a score between 0.3 and 1.
\<close>

theorem score_in_unit_interval:
  "0 \<le> fst (calculate_relevance_score v pt t j c) \<and>
   fst (calculate_relevance_score v pt t j c) \<le> 1 \<and>
   (is_valid (validate_profile v name pt t j c u) \<longrightarrow>
      0.3 \<le> score (validate_profile v name pt t j c u) \<and>
      score (validate_profile v name pt t j c u) \<le> 1)"
  using calculate_relevance_score_bounds[of v pt t j c]
  by (simp add: validate_profile_score validate_profile_is_valid)

theorem score_in_unit_interval_witness:
  "is_valid (validate_profile validator_rfid_engineer ''Jane Doe''
      ''Senior RFID Engineer at Acme Corp, 8 years experience'' [] [] [] []) \<and>
   0.3 \<le> score (validate_profile validator_rfid_engineer ''Jane Doe''
      ''Senior RFID Engineer at Acme Corp, 8 years experience'' [] [] [] []) \<and>
   score (validate_profile validator_rfid_engineer ''Jane Doe''
      ''Senior RFID Engineer at Acme Corp, 8 years experience'' [] [] [] []) \<le> 1"
proof -
  have v: "is_valid (validate_profile validator_rfid_engineer ''Jane Doe''
      ''Senior RFID Engineer at Acme Corp, 8 years experience'' [] [] [] [])"
    by code_simp
  from score_in_unit_interval[of validator_rfid_engineer
      "''Senior RFID Engineer at Acme Corp, 8 years experience''" "[]" "[]" "[]" "''Jane Doe''" "[]"] v
  show ?thesis by blast
qed

lemma job_title_match_exact:
  assumes "pt \<noteq> []" "j \<noteq> []" "any_in (keyword_terms v) (lower j)"
    "count_in IRRELEVANT_TERMS (combined_text t j c pt) < 2"
    "\<not> any_in product_indicators (combined_text t j c pt)"
    "count_in company_page_indicators (combined_text t j c pt) < 2"
  shows "fst (calculate_relevance_score v pt t j c) =
           min (min (real (count_in (keyword_terms v) (combined_text t j c pt)) /
                     real (length (keyword_terms v))) 1 * 0.4 +
                (if 0 < count_in PROFESSIONAL_TERMS (combined_text t j c pt)
                 then min (real (count_in PROFESSIONAL_TERMS (combined_text t j c pt)) / 5) 1 * 0.3
                 else 0) +
                0.2 +
                (if c \<noteq> [] \<and> any_in (keyword_terms v) (lower c) then 0.1 else 0)) 1"
proof -
  let ?km = "count_in (keyword_terms v) (combined_text t j c pt)"
  let ?pc = "count_in PROFESSIONAL_TERMS (combined_text t j c pt)"
  from assms(3) obtain x where x: "x \<in> set (keyword_terms v)" "contains x (lower j)"
    unfolding any_in_iff by blast
  have km: "0 < ?km" using count_in_pos[OF x(1) contains_job_title[OF x(2)]] .
  define K where "K = min (real ?km / real (length (keyword_terms v))) 1 * 0.4"
  define P where "P = min (real ?pc / 5) 1 * 0.3"
  have b: "base_score v ?km ?pc j c =
          K + (if 0 < ?pc then P else 0) + 0.2 +
          (if c \<noteq> [] \<and> any_in (keyword_terms v) (lower c) then 0.1 else 0)"
    using km assms(2,3) unfolding base_score_def Let_def K_def P_def by simp
  have "fst (calculate_relevance_score v pt t j c) = min (base_score v ?km ?pc j c) 1"
    using assms(1,4,5,6) by (simp add: calculate_relevance_score_def Let_def)
  then show ?thesis unfolding b K_def P_def .
qed

lemma base_score_no_keyword: "base_score v 0 pc [] c \<le> 0.12"
proof -
  define P where "P = min (real pc / 5) 1 * 0.3"
  have P: "0 \<le> P" "P \<le> 0.3" unfolding P_def by simp_all
  have "base_score v 0 pc [] c =
          ((if 0 < pc then P else 0) +
           (if c \<noteq> [] \<and> any_in (keyword_terms v) (lower c) then 0.1 else 0)) * 0.3"
    unfolding base_score_def Let_def P_def by simp
  then show ?thesis using P by (simp split: if_splits)
qed

lemma score_without_job_title:
  assumes "count_in (keyword_terms v) (combined_text t [] c pt) = 0"
  shows "fst (calculate_relevance_score v pt t [] c) \<le> 0.12"
proof -
  have "min (base_score v 0 pc [] c) 1 \<le> 0.12" for pc
    using base_score_no_keyword[of v pc c] by simp
  then show ?thesis using assms by (simp add: calculate_relevance_score_def Let_def)
qed

text \<open>
  C10: the checks of \<open>validate_profile\<close> are five entries computed from the name and
  the profile text only, so they do not change with the title, the job title or the
  company; \<open>has_keyword_match\<close> is true exactly when a keyword term occurs in the
  profile text, and when none does the profile is not valid. The job-title match does
  contribute to the score: when the job title contains a keyword term (for a profile
  text that is not empty and meets no hard reject) the score is the weighted sum with
  the summand 0.2 for the job title, hence above 0.2; and when no keyword term occurs
  in the title, the company or the profile text, the same profile without the job
  title scores at most 0.12, strictly less.
\<close>

theorem checks_read_profile_text_only:
  "checks (validate_profile v name pt t j c u) =
     [(''has_name'', name \<noteq> [] \<and> name \<noteq> ''Unknown'' \<and> 2 < length name),
      (''has_keyword_match'', any_in (keyword_terms v) (lower pt)),
      (''is_professional'', any_in PROFESSIONAL_TERMS (lower pt)),
      (''not_product'', \<not> any_in (take 5 IRRELEVANT_TERMS) (lower pt)),
      (''not_company_page'', \<not> any_in [''about us'', ''our company'', ''contact us''] (lower pt))] \<and>
   checks (validate_profile v name pt t j c u) = checks (validate_profile v name pt t' j' c' u') \<and>
   (\<not> any_in (keyword_terms v) (lower pt) \<longrightarrow>
      map_of (checks (validate_profile v name pt t j c u)) ''has_keyword_match'' = Some False \<and>
      \<not> check (checks (validate_profile v name pt t j c u)) ''has_keyword_match'' \<and>
      \<not> is_valid (validate_profile v name pt t j c u)) \<and>
   (any_in (keyword_terms v) (lower pt) \<longrightarrow>
      map_of (checks (validate_profile v name pt t j c u)) ''has_keyword_match'' = Some True) \<and>
   (pt \<noteq> [] \<and> j \<noteq> [] \<and> any_in (keyword_terms v) (lower j) \<and>
    count_in IRRELEVANT_TERMS (combined_text t j c pt) < 2 \<and>
    \<not> any_in product_indicators (combined_text t j c pt) \<and>
    count_in company_page_indicators (combined_text t j c pt) < 2 \<longrightarrow>
      0.2 < score (validate_profile v name pt t j c u)) \<and>
   (job_title_scenario v pt t j c \<longrightarrow>
      score (validate_profile v name pt t j c u) =
        min (min (real (count_in (keyword_terms v) (combined_text t j c pt)) /
                  real (length (keyword_terms v))) 1 * 0.4 +
             (if 0 < count_in PROFESSIONAL_TERMS (combined_text t j c pt)
              then min (real (count_in PROFESSIONAL_TERMS (combined_text t j c pt)) / 5) 1 * 0.3
              else 0) +
             0.2 +
             (if c \<noteq> [] \<and> any_in (keyword_terms v) (lower c) then 0.1 else 0)) 1) \<and>
   (job_title_scenario v pt t j c \<and> count_in (keyword_terms v) (combined_text t [] c pt) = 0 \<longrightarrow>
      score (validate_profile v name pt t [] c u) \<le> 0.12 \<and>
      score (validate_profile v name pt t [] c u) < score (validate_profile v name pt t j c u))"
proof (intro conjI impI)
  show "checks (validate_profile v name pt t j c u) =
     [(''has_name'', name \<noteq> [] \<and> name \<noteq> ''Unknown'' \<and> 2 < length name),
      (''has_keyword_match'', any_in (keyword_terms v) (lower pt)),
      (''is_professional'', any_in PROFESSIONAL_TERMS (lower pt)),
      (''not_product'', \<not> any_in (take 5 IRRELEVANT_TERMS) (lower pt)),
      (''not_company_page'', \<not> any_in [''about us'', ''our company'', ''contact us''] (lower pt))]"
    unfolding validate_profile_checks profile_checks_def ..
next
  show "checks (validate_profile v name pt t j c u) = checks (validate_profile v name pt t' j' c' u')"
    unfolding validate_profile_checks ..
next
  assume n: "\<not> any_in (keyword_terms v) (lower pt)"
  show "map_of (checks (validate_profile v name pt t j c u)) ''has_keyword_match'' = Some False"
    using n unfolding validate_profile_checks by (simp add: profile_checks_def)
  show "\<not> check (checks (validate_profile v name pt t j c u)) ''has_keyword_match''"
    using n unfolding validate_profile_checks check_has_keyword_match .
  show "\<not> is_valid (validate_profile v name pt t j c u)"
    using n unfolding validate_profile_is_valid check_has_keyword_match by simp
next
  assume "any_in (keyword_terms v) (lower pt)"
  then show "map_of (checks (validate_profile v name pt t j c u)) ''has_keyword_match'' = Some True"
    unfolding validate_profile_checks by (simp add: profile_checks_def)
next
  assume "pt \<noteq> [] \<and> j \<noteq> [] \<and> any_in (keyword_terms v) (lower j) \<and>
    count_in IRRELEVANT_TERMS (combined_text t j c pt) < 2 \<and>
    \<not> any_in product_indicators (combined_text t j c pt) \<and>
    count_in company_page_indicators (combined_text t j c pt) < 2"
  then show "0.2 < score (validate_profile v name pt t j c u)"
    unfolding validate_profile_score using job_title_match_score[of pt j v t c] by blast
next
  assume "job_title_scenario v pt t j c"
  then show "score (validate_profile v name pt t j c u) =
        min (min (real (count_in (keyword_terms v) (combined_text t j c pt)) /
                  real (length (keyword_terms v))) 1 * 0.4 +
             (if 0 < count_in PROFESSIONAL_TERMS (combined_text t j c pt)
              then min (real (count_in PROFESSIONAL_TERMS (combined_text t j c pt)) / 5) 1 * 0.3
              else 0) +
             0.2 +
             (if c \<noteq> [] \<and> any_in (keyword_terms v) (lower c) then 0.1 else 0)) 1"
    unfolding validate_profile_score job_title_scenario_def
    using job_title_match_exact[of pt j v t c] by blast
next
  assume a: "job_title_scenario v pt t j c \<and> count_in (keyword_terms v) (combined_text t [] c pt) = 0"
  then have lo: "fst (calculate_relevance_score v pt t [] c) \<le> 0.12"
    using score_without_job_title[of v t c pt] by blast
  from a have hi: "0.2 < fst (calculate_relevance_score v pt t j c)"
    unfolding job_title_scenario_def using job_title_match_score[of pt j v t c] by blast
  show "score (validate_profile v name pt t [] c u) \<le> 0.12"
    unfolding validate_profile_score by (rule lo)
  show "score (validate_profile v name pt t [] c u) < score (validate_profile v name pt t j c u)"
    unfolding validate_profile_score using lo hi by simp
qed

theorem checks_read_profile_text_only_witness:
  "\<not> any_in (keyword_terms validator_rfid) (lower ''Experienced person'') \<and>
   any_in (keyword_terms validator_rfid) (lower ''RFID Engineer'') \<and>
   job_title_scenario validator_rfid ''Experienced person'' [] ''RFID Engineer'' [] \<and>
   count_in (keyword_terms validator_rfid) (combined_text [] [] [] ''Experienced person'') = 0 \<and>
   map_of (checks (validate_profile validator_rfid ''Jane Doe'' ''Experienced person'' [] ''RFID Engineer'' [] []))
       ''has_keyword_match'' = Some False \<and>
   \<not> check (checks (validate_profile validator_rfid ''Jane Doe'' ''Experienced person'' [] ''RFID Engineer'' [] []))
       ''has_keyword_match'' \<and>
   \<not> is_valid (validate_profile validator_rfid ''Jane Doe'' ''Experienced person'' [] ''RFID Engineer'' [] []) \<and>
   0.2 < score (validate_profile validator_rfid ''Jane Doe'' ''Experienced person'' [] ''RFID Engineer'' [] []) \<and>
   score (validate_profile validator_rfid ''Jane Doe'' ''Experienced person'' [] [] [] []) <
     score (validate_profile validator_rfid ''Jane Doe'' ''Experienced person'' [] ''RFID Engineer'' [] []) \<and>
   score (validate_profile validator_rfid ''Jane Doe'' ''Experienced person'' [] ''RFID Engineer'' [] []) = 18 / 25 \<and>
   score (validate_profile validator_rfid ''Jane Doe'' ''Experienced person'' [] [] [] []) = 9 / 500 \<and>
   score (validate_profile validator_rfid ''Jane Doe'' ''Experienced person'' [] [] [] []) \<le> 0.12 \<and>
   map_of (checks (validate_profile validator_rfid ''Jane Doe'' ''RFID person'' [] [] [] []))
       ''has_keyword_match'' = Some True"
proof -
  have a: "\<not> any_in (keyword_terms validator_rfid) (lower ''Experienced person'')" by code_simp
  have b: "''Experienced person'' \<noteq> [] \<and> ''RFID Engineer'' \<noteq> [] \<and>
    any_in (keyword_terms validator_rfid) (lower ''RFID Engineer'') \<and>
    count_in IRRELEVANT_TERMS (combined_text [] ''RFID Engineer'' [] ''Experienced person'') < 2 \<and>
    \<not> any_in product_indicators (combined_text [] ''RFID Engineer'' [] ''Experienced person'') \<and>
    count_in company_page_indicators (combined_text [] ''RFID Engineer'' [] ''Experienced person'') < 2"
    by code_simp
  have s: "job_title_scenario validator_rfid ''Experienced person'' [] ''RFID Engineer'' []"
    unfolding job_title_scenario_def using b .
  have z: "count_in (keyword_terms validator_rfid) (combined_text [] [] [] ''Experienced person'') = 0"
    by code_simp
  have p: "any_in (keyword_terms validator_rfid) (lower ''RFID person'')" by code_simp
  have e2: "score (validate_profile validator_rfid ''Jane Doe'' ''Experienced person'' [] [] [] []) = 9 / 500"
    by code_simp
  have f: "score (validate_profile validator_rfid ''Jane Doe'' ''Experienced person'' [] ''RFID Engineer'' [] []) =
        min (min (real (count_in (keyword_terms validator_rfid) (combined_text [] ''RFID Engineer'' [] ''Experienced person'')) /
                  real (length (keyword_terms validator_rfid))) 1 * 0.4 +
             (if 0 < count_in PROFESSIONAL_TERMS (combined_text [] ''RFID Engineer'' [] ''Experienced person'')
              then min (real (count_in PROFESSIONAL_TERMS (combined_text [] ''RFID Engineer'' [] ''Experienced person'')) / 5) 1 * 0.3
              else 0) +
             0.2 +
             (if ([] :: string) \<noteq> [] \<and> any_in (keyword_terms validator_rfid) (lower []) then 0.1 else 0)) 1"
    using checks_read_profile_text_only[of validator_rfid "''Jane Doe''" "''Experienced person''" "[]"
      "''RFID Engineer''" "[]" "[]" "[]" "[]" "[]" "[]"] s by blast
  have km: "count_in (keyword_terms validator_rfid) (combined_text [] ''RFID Engineer'' [] ''Experienced person'') = 1"
    by code_simp
  have n: "length (keyword_terms validator_rfid) = 1" by code_simp
  have pc: "count_in PROFESSIONAL_TERMS (combined_text [] ''RFID Engineer'' [] ''Experienced person'') = 2"
    by code_simp
  have e1: "score (validate_profile validator_rfid ''Jane Doe'' ''Experienced person'' [] ''RFID Engineer'' [] []) = 18 / 25"
    unfolding f km n pc by simp
  have lo: "score (validate_profile validator_rfid ''Jane Doe'' ''Experienced person'' [] [] [] []) \<le> 0.12"
    using checks_read_profile_text_only[of validator_rfid "''Jane Doe''" "''Experienced person''" "[]"
      "''RFID Engineer''" "[]" "[]" "[]" "[]" "[]" "[]"] s z by blast
  from checks_read_profile_text_only[of validator_rfid "''Jane Doe''" "''Experienced person''" "[]"
      "''RFID Engineer''" "[]" "[]" "[]" "[]" "[]" "[]"] a b s z
  have m: "map_of (checks (validate_profile validator_rfid ''Jane Doe'' ''Experienced person'' [] ''RFID Engineer'' [] []))
       ''has_keyword_match'' = Some False"
    and c: "\<not> check (checks (validate_profile validator_rfid ''Jane Doe'' ''Experienced person'' [] ''RFID Engineer'' [] []))
       ''has_keyword_match''"
    and i: "\<not> is_valid (validate_profile validator_rfid ''Jane Doe'' ''Experienced person'' [] ''RFID Engineer'' [] [])"
    and g: "0.2 < score (validate_profile validator_rfid ''Jane Doe'' ''Experienced person'' [] ''RFID Engineer'' [] [])"
    and l: "score (validate_profile validator_rfid ''Jane Doe'' ''Experienced person'' [] [] [] []) <
     score (validate_profile validator_rfid ''Jane Doe'' ''Experienced person'' [] ''RFID Engineer'' [] [])"
    by blast+
  from checks_read_profile_text_only[of validator_rfid "''Jane Doe''" "''RFID person''" "[]"
      "[]" "[]" "[]" "[]" "[]" "[]" "[]"] p
  have q: "map_of (checks (validate_profile validator_rfid ''Jane Doe'' ''RFID person'' [] [] [] []))
       ''has_keyword_match'' = Some True" by blast
  from a b s z m c i g l e1 e2 lo q show ?thesis by blast
qed

end
